theory Spec2Isabelle
  imports Complex_Main "HOL-Library.Log_Nat"
begin

section \<open>The coffee-shop store: tables of the sale transaction processor\<close>

text \<open>
  The tables are those of the migrations that create customers, products, sales and
  sale items. A table is the list of its rows
  in insertion order. A \<open>UUID\<close> is an opaque identifier; a \<open>DECIMAL(10, 2)\<close> amount is
  the integer number of hundredths it denotes, so that \<open>25.50\<close> is \<open>2550\<close> and the
  arithmetic of the function (a price times an integer, a sum of subtotals) is exact.
  Timestamps are values of a clock; only the \<open>updated_at\<close> columns that
  \<open>process_sale\<close> assigns are kept. Columns and arguments are never null, and a
  character of a text is a character of the column. The customers table is the one of the
  migration that creates it: \<open>first_name\<close> and \<open>last_name\<close> are \<open>VARCHAR(50)\<close>,
  \<open>email\<close> is \<open>VARCHAR(255)\<close> and unique. That the rows of a store have distinct
  emails is a hypothesis where a property needs it.
\<close>

type_synonym uuid = nat
type_synonym decimal = int
type_synonym timestamp = nat

record customer_row =
  c_id :: uuid
  c_first_name :: string
  c_last_name :: string
  c_email :: string
  c_updated_at :: timestamp

record product_row =
  p_id :: uuid
  p_name :: string
  p_price :: decimal
  p_stock :: int
  p_is_active :: bool
  p_updated_at :: timestamp

record sale_row =
  s_id :: uuid
  s_customer_id :: uuid
  s_total :: decimal

record sale_item_row =
  si_id :: uuid
  si_sale_id :: uuid
  si_product_id :: uuid
  si_quantity :: int
  si_unit_price :: decimal
  si_subtotal :: decimal

record db =
  customers :: "customer_row list"
  products :: "product_row list"
  sales :: "sale_row list"
  sale_items :: "sale_item_row list"

text \<open>The composite type \<open>sale_item_input\<close> of migration 007.\<close>

record sale_item_input =
  product_id :: uuid
  quantity :: int

subsection \<open>Text of integers and identifiers\<close>

text \<open>
  The \<open>||\<close> operator of the messages turns an integer into its decimal text. An
  identifier is shown by the same text.
\<close>

fun nat_text :: "nat \<Rightarrow> string" where
  "nat_text n =
     (if n < 10 then [''0123456789'' ! n]
      else nat_text (n div 10) @ [''0123456789'' ! (n mod 10)])"

declare nat_text.simps [simp del]

definition int_text :: "int \<Rightarrow> string" where
  "int_text i = (if i < 0 then ''-'' @ nat_text (nat (- i)) else nat_text (nat i))"

definition uuid_text :: "uuid \<Rightarrow> string" where
  "uuid_text u = nat_text u"

subsection \<open>Identifier generation\<close>

text \<open>
  \<open>uuid_generate_v4()\<close>, the default of every \<open>id\<close> column, draws an identifier that
  occurs nowhere in the store. The model takes the successor of the largest identifier
  present.
\<close>

definition all_uuids :: "db \<Rightarrow> uuid list" where
  "all_uuids s =
     map c_id (customers s) @ map p_id (products s) @
     map s_id (sales s) @ map s_customer_id (sales s) @
     map si_id (sale_items s) @ map si_sale_id (sale_items s) @
     map si_product_id (sale_items s)"

definition uuid_generate_v4 :: "db \<Rightarrow> uuid" where
  "uuid_generate_v4 s = Suc (fold max (all_uuids s) 0)"

subsection \<open>Errors raised by the store\<close>

text \<open>
  A statement that breaks a constraint raises; \<open>SQLERRM\<close> is the text of the error. The
  constraint names are the ones PostgreSQL gives to the column checks of the migrations.
\<close>

datatype sql_error =
  check_violation string string
  | not_null_violation string string
  | numeric_value_out_of_range
  | string_data_right_truncation nat
  | unique_violation string

definition dquote :: "string \<Rightarrow> string" where
  "dquote x = [CHR 0x22] @ x @ [CHR 0x22]"

fun sqlerrm :: "sql_error \<Rightarrow> string" where
  "sqlerrm (check_violation rel con) =
     ''new row for relation '' @ dquote rel @ '' violates check constraint '' @ dquote con"
| "sqlerrm (not_null_violation rel col) =
     ''null value in column '' @ dquote col @ '' of relation '' @ dquote rel @
     '' violates not-null constraint''"
| "sqlerrm numeric_value_out_of_range = ''numeric field overflow''"
| "sqlerrm (string_data_right_truncation n) =
     ''value too long for type character varying('' @ nat_text n @ '')''"
| "sqlerrm (unique_violation con) =
     ''duplicate key value violates unique constraint '' @ dquote con"

text \<open>
  Storing a text in a \<open>VARCHAR(n)\<close> column: a text of at most \<open>n\<close> characters is
  stored as it is; a longer one is cut to \<open>n\<close> characters when the excess is spaces
  only, and raises otherwise.
\<close>

definition varchar :: "nat \<Rightarrow> string \<Rightarrow> sql_error + string" where
  "varchar n v =
     (if length v \<le> n then Inr v
      else if list_all (\<lambda>c. c = CHR '' '') (drop n v) then Inr (take n v)
      else Inl (string_data_right_truncation n))"

text \<open>A value fits \<open>DECIMAL(10, 2)\<close> when its absolute value is below \<open>10^8\<close>.\<close>

definition fits_decimal_10_2 :: "decimal \<Rightarrow> bool" where
  "fits_decimal_10_2 v = (\<bar>v\<bar> < 10000000000)"

section \<open>The function \<open>process_sale\<close> of migration 007\<close>

text \<open>The JSON object the function returns.\<close>

datatype sale_json =
  Json_failure string
  | Json_success uuid uuid decimal

text \<open>
  Step 1, find or create the customer. The \<open>INSERT\<close> stores the three texts in their
  columns and keeps the emails of the table unique; the \<open>UPDATE\<close> stores the two names.
\<close>

definition resolve_customer ::
  "db \<Rightarrow> timestamp \<Rightarrow> string \<Rightarrow> string \<Rightarrow> string \<Rightarrow> sql_error + (db \<times> uuid)" where
  "resolve_customer s now p_first p_last p_email =
     (case find (\<lambda>c. c_email c = p_email) (customers s) of
        None \<Rightarrow>
          (case varchar 50 p_first of
             Inl err \<Rightarrow> Inl err
           | Inr v_first \<Rightarrow>
               (case varchar 50 p_last of
                  Inl err \<Rightarrow> Inl err
                | Inr v_last \<Rightarrow>
                    (case varchar 255 p_email of
                       Inl err \<Rightarrow> Inl err
                     | Inr v_email \<Rightarrow>
                         if \<exists>c \<in> set (customers s). c_email c = v_email then
                           Inl (unique_violation ''customers_email_key'')
                         else
                           (let v_customer_id = uuid_generate_v4 s in
                            Inr (s\<lparr>customers := customers s @
                                   [\<lparr>c_id = v_customer_id, c_first_name = v_first,
                                     c_last_name = v_last, c_email = v_email,
                                     c_updated_at = now\<rparr>]\<rparr>,
                                 v_customer_id)))))
      | Some c \<Rightarrow>
          (case varchar 50 p_first of
             Inl err \<Rightarrow> Inl err
           | Inr v_first \<Rightarrow>
               (case varchar 50 p_last of
                  Inl err \<Rightarrow> Inl err
                | Inr v_last \<Rightarrow>
                    Inr (s\<lparr>customers :=
                           map (\<lambda>r. if c_id r = c_id c
                                     then r\<lparr>c_first_name := v_first, c_last_name := v_last,
                                             c_updated_at := now\<rparr>
                                     else r) (customers s)\<rparr>,
                         c_id c))))"

text \<open>
  Step 2, the validation loop. It returns the message of the first \<open>RETURN\<close> it
  reaches, or \<open>None\<close> when the loop runs to its end.
\<close>

fun validate_items :: "product_row list \<Rightarrow> sale_item_input list \<Rightarrow> string option" where
  "validate_items ps [] = None"
| "validate_items ps (v_item # rest) =
     (case find (\<lambda>p. p_id p = product_id v_item) ps of
        None \<Rightarrow> Some (''Product not found: '' @ uuid_text (product_id v_item))
      | Some v_product \<Rightarrow>
          if \<not> p_is_active v_product then
            Some (''Product is not active: '' @ p_name v_product)
          else if p_stock v_product < quantity v_item then
            Some (''Insufficient stock for product: '' @ p_name v_product @
                  '' (available: '' @ int_text (p_stock v_product) @
                  '', requested: '' @ int_text (quantity v_item) @ '')'')
          else validate_items ps rest)"

text \<open>The \<open>INSERT INTO sale_items\<close> of step 4, with the checks of the table.\<close>

definition insert_sale_item ::
  "db \<Rightarrow> uuid \<Rightarrow> uuid \<Rightarrow> int \<Rightarrow> decimal \<Rightarrow> decimal \<Rightarrow> sql_error + db" where
  "insert_sale_item s v_sale_id pid qty v_price v_subtotal =
     (if \<not> 0 < qty then Inl (check_violation ''sale_items'' ''sale_items_quantity_check'')
      else if \<not> 0 \<le> v_subtotal then
        Inl (check_violation ''sale_items'' ''sale_items_subtotal_check'')
      else if \<not> 0 \<le> v_price then
        Inl (check_violation ''sale_items'' ''sale_items_unit_price_check'')
      else Inr (s\<lparr>sale_items := sale_items s @
                  [\<lparr>si_id = uuid_generate_v4 s, si_sale_id = v_sale_id, si_product_id = pid,
                    si_quantity = qty, si_unit_price = v_price,
                    si_subtotal = v_subtotal\<rparr>]\<rparr>))"

text \<open>The \<open>UPDATE products SET stock = stock - quantity\<close> of step 4, with \<open>CHECK (stock >= 0)\<close>.\<close>

definition decrement_stock :: "db \<Rightarrow> timestamp \<Rightarrow> uuid \<Rightarrow> int \<Rightarrow> sql_error + db" where
  "decrement_stock s now pid qty =
     (let rows = map (\<lambda>p. if p_id p = pid
                           then p\<lparr>p_stock := p_stock p - qty, p_updated_at := now\<rparr>
                           else p) (products s) in
      if \<exists>p \<in> set rows. p_id p = pid \<and> p_stock p < 0 then
        Inl (check_violation ''products'' ''products_stock_check'')
      else Inr (s\<lparr>products := rows\<rparr>))"

text \<open>
  Step 4, the loop over the items: the running total \<open>v_total\<close> is threaded through.
  A product that the \<open>SELECT price\<close> does not find leaves the price null, which the
  insert refuses.
\<close>

fun process_items ::
  "db \<Rightarrow> timestamp \<Rightarrow> uuid \<Rightarrow> decimal \<Rightarrow> sale_item_input list \<Rightarrow> sql_error + (db \<times> decimal)"
  where
  "process_items s now v_sale_id v_total [] = Inr (s, v_total)"
| "process_items s now v_sale_id v_total (v_item # rest) =
     (case find (\<lambda>p. p_id p = product_id v_item) (products s) of
        None \<Rightarrow> Inl (not_null_violation ''sale_items'' ''unit_price'')
      | Some v_product \<Rightarrow>
          (let v_subtotal = p_price v_product * quantity v_item in
           if \<not> fits_decimal_10_2 v_subtotal then Inl numeric_value_out_of_range
           else if \<not> fits_decimal_10_2 (v_total + v_subtotal) then
             Inl numeric_value_out_of_range
           else
             (case insert_sale_item s v_sale_id (product_id v_item) (quantity v_item)
                     (p_price v_product) v_subtotal of
                Inl e \<Rightarrow> Inl e
              | Inr s1 \<Rightarrow>
                  (case decrement_stock s1 now (product_id v_item) (quantity v_item) of
                     Inl e \<Rightarrow> Inl e
                   | Inr s2 \<Rightarrow>
                       process_items s2 now v_sale_id (v_total + v_subtotal) rest))))"

text \<open>
  The block between \<open>BEGIN\<close> and \<open>EXCEPTION\<close>: \<open>Inl\<close> is an error raised inside it,
  \<open>Inr\<close> the store it leaves and the object it returns.
\<close>

definition process_sale_block ::
  "db \<Rightarrow> timestamp \<Rightarrow> string \<Rightarrow> string \<Rightarrow> string \<Rightarrow> sale_item_input list
     \<Rightarrow> sql_error + (db \<times> sale_json)" where
  "process_sale_block s now p_first p_last p_email p_items =
     (case resolve_customer s now p_first p_last p_email of
        Inl e \<Rightarrow> Inl e
      | Inr (s1, v_customer_id) \<Rightarrow>
          (case validate_items (products s1) p_items of
             Some msg \<Rightarrow> Inr (s1, Json_failure msg)
           | None \<Rightarrow>
               (let v_sale_id = uuid_generate_v4 s1;
                    s2 = s1\<lparr>sales := sales s1 @
                           [\<lparr>s_id = v_sale_id, s_customer_id = v_customer_id,
                             s_total = 0\<rparr>]\<rparr>
                in case process_items s2 now v_sale_id 0 p_items of
                     Inl e \<Rightarrow> Inl e
                   | Inr (s3, v_total) \<Rightarrow>
                       if v_total < 0 then
                         Inl (check_violation ''sales'' ''sales_total_check'')
                       else
                         Inr (s3\<lparr>sales := map (\<lambda>r. if s_id r = v_sale_id
                                                     then r\<lparr>s_total := v_total\<rparr> else r)
                                               (sales s3)\<rparr>,
                              Json_success v_sale_id v_customer_id v_total))))"

text \<open>
  The whole function: the handler \<open>WHEN OTHERS\<close> undoes what the block wrote and returns
  the failure object; a block that returns keeps what it wrote.
\<close>

definition process_sale ::
  "db \<Rightarrow> timestamp \<Rightarrow> string \<Rightarrow> string \<Rightarrow> string \<Rightarrow> sale_item_input list
     \<Rightarrow> db \<times> sale_json" where
  "process_sale s now p_first p_last p_email p_items =
     (case process_sale_block s now p_first p_last p_email p_items of
        Inl e \<Rightarrow> (s, Json_failure (''Transaction failed: '' @ sqlerrm e))
      | Inr r \<Rightarrow> r)"

section \<open>Notions used to state the properties\<close>

text \<open>The quantity of one product that a list of line items asks for.\<close>

definition requested :: "uuid \<Rightarrow> sale_item_input list \<Rightarrow> int" where
  "requested pid items = sum_list (map quantity (filter (\<lambda>i. product_id i = pid) items))"

text \<open>The row that the stock update of step 4 writes.\<close>

definition sold_row :: "timestamp \<Rightarrow> uuid \<Rightarrow> int \<Rightarrow> product_row \<Rightarrow> product_row" where
  "sold_row now pid qty p =
     (if p_id p = pid then p\<lparr>p_stock := p_stock p - qty, p_updated_at := now\<rparr> else p)"

text \<open>The \<open>INSERT INTO sales\<close> of step 3 and the \<open>UPDATE sales\<close> of step 5.\<close>

definition new_sale :: "db \<Rightarrow> uuid \<Rightarrow> uuid \<Rightarrow> db" where
  "new_sale s1 sid cid =
     s1\<lparr>sales := sales s1 @ [\<lparr>s_id = sid, s_customer_id = cid, s_total = 0\<rparr>]\<rparr>"

definition set_total :: "uuid \<Rightarrow> decimal \<Rightarrow> sale_row \<Rightarrow> sale_row" where
  "set_total sid tot r = (if s_id r = sid then r\<lparr>s_total := tot\<rparr> else r)"

subsection \<open>Sequences of calls\<close>

text \<open>
  The arguments of one call of \<open>process_sale\<close>, with the time at which it runs, and a run
  of calls one after the other on the same store.
\<close>

record sale_call =
  call_at :: timestamp
  call_first_name :: string
  call_last_name :: string
  call_email :: string
  call_items :: "sale_item_input list"

fun process_sales :: "db \<Rightarrow> sale_call list \<Rightarrow> db \<times> sale_json list" where
  "process_sales s [] = (s, [])"
| "process_sales s (c # cs) =
     (let (s1, out) = process_sale s (call_at c) (call_first_name c) (call_last_name c)
                        (call_email c) (call_items c);
          (s2, outs) = process_sales s1 cs
      in (s2, out # outs))"

fun is_success :: "sale_json \<Rightarrow> bool" where
  "is_success (Json_success sid cid tot) = True"
| "is_success (Json_failure msg) = False"

text \<open>The quantity of a product over the committed calls of a run.\<close>

fun committed_quantity :: "uuid \<Rightarrow> sale_call list \<Rightarrow> sale_json list \<Rightarrow> int" where
  "committed_quantity pid (c # cs) (out # outs) =
     (if is_success out then requested pid (call_items c) else 0) +
     committed_quantity pid cs outs"
| "committed_quantity pid cs outs = 0"

subsection \<open>A small store\<close>

definition shop :: db where
  "shop = \<lparr>customers = [],
           products = [\<lparr>p_id = 1, p_name = ''Latte'', p_price = 500, p_stock = 10,
                        p_is_active = True, p_updated_at = 0\<rparr>,
                       \<lparr>p_id = 2, p_name = ''Mocha'', p_price = 650, p_stock = 4,
                        p_is_active = False, p_updated_at = 0\<rparr>],
           sales = [], sale_items = []\<rparr>"

definition ann :: "int \<Rightarrow> sale_call" where
  "ann q = \<lparr>call_at = 5, call_first_name = ''Ann'', call_last_name = ''Lee'',
            call_email = ''a@x.com'', call_items = [\<lparr>product_id = 1, quantity = q\<rparr>]\<rparr>"

subsection \<open>Sales and their line items\<close>

text \<open>
  The line items of a sale, and the statement that every sale row carries the sum of the
  subtotals of its items and every item the product of its quantity and unit price.
\<close>

definition items_of_sale :: "db \<Rightarrow> uuid \<Rightarrow> sale_item_row list" where
  "items_of_sale s sid = filter (\<lambda>i. si_sale_id i = sid) (sale_items s)"

definition sale_consistent :: "db \<Rightarrow> bool" where
  "sale_consistent s =
     ((\<forall>r \<in> set (sales s). s_total r = sum_list (map si_subtotal (items_of_sale s (s_id r)))) \<and>
      (\<forall>i \<in> set (sale_items s). si_subtotal i = si_quantity i * si_unit_price i))"

text \<open>A request with two lines of the first product.\<close>

definition order :: "sale_item_input list" where
  "order = [\<lparr>product_id = 1, quantity = 3\<rparr>, \<lparr>product_id = 1, quantity = 2\<rparr>]"

subsection \<open>The validation rules in the words of the specification\<close>

text \<open>
  For one line item: the product must exist, then it must be active, then the requested
  quantity must not exceed the stock. The rejection names the identifier that was not
  found, or the product, with the available and the requested quantity for a lack of stock.
\<close>

datatype rejection =
  PRODUCT_NOT_FOUND uuid
  | PRODUCT_INACTIVE string
  | INSUFFICIENT_STOCK string int int

definition first_failing_check :: "product_row list \<Rightarrow> sale_item_input \<Rightarrow> rejection option" where
  "first_failing_check ps it =
     (case find (\<lambda>p. p_id p = product_id it) ps of
        None \<Rightarrow> Some (PRODUCT_NOT_FOUND (product_id it))
      | Some p \<Rightarrow>
          if \<not> p_is_active p then Some (PRODUCT_INACTIVE (p_name p))
          else if p_stock p < quantity it then
            Some (INSUFFICIENT_STOCK (p_name p) (p_stock p) (quantity it))
          else None)"

fun rejection_message :: "rejection \<Rightarrow> string" where
  "rejection_message (PRODUCT_NOT_FOUND pid) = ''Product not found: '' @ uuid_text pid"
| "rejection_message (PRODUCT_INACTIVE name) = ''Product is not active: '' @ name"
| "rejection_message (INSUFFICIENT_STOCK name available wanted) =
     ''Insufficient stock for product: '' @ name @ '' (available: '' @ int_text available @
     '', requested: '' @ int_text wanted @ '')''"

text \<open>The row that the customer update of step 1 writes.\<close>

definition renamed :: "uuid \<Rightarrow> timestamp \<Rightarrow> string \<Rightarrow> string \<Rightarrow> customer_row \<Rightarrow> customer_row" where
  "renamed cid now f l r =
     (if c_id r = cid then r\<lparr>c_first_name := f, c_last_name := l, c_updated_at := now\<rparr> else r)"

text \<open>The amount of a request at the prices of a products table.\<close>

definition line_value :: "product_row list \<Rightarrow> sale_item_input \<Rightarrow> decimal" where
  "line_value ps it =
     (case find (\<lambda>p. p_id p = product_id it) ps of
        None \<Rightarrow> 0
      | Some p \<Rightarrow> p_price p * quantity it)"

definition order_value :: "product_row list \<Rightarrow> sale_item_input list \<Rightarrow> decimal" where
  "order_value ps items = sum_list (map (line_value ps) items)"

text \<open>A request that lists one product twice.\<close>

definition twice :: "sale_item_input list" where
  "twice = [\<lparr>product_id = 1, quantity = 6\<rparr>, \<lparr>product_id = 1, quantity = 6\<rparr>]"

section \<open>The service and the route of \<open>POST /api/sales\<close>\<close>

subsection \<open>\<open>AppError\<close>\<close>

text \<open>
  The class \<open>AppError\<close> of \<open>shared/utils/AppError.ts\<close> with the factories the sale path
  uses. The details of a validation error are the entries the middleware builds from the
  issues of the schema: the path of the field and the message.
\<close>

record issue =
  field :: string
  issue_message :: string

record AppError =
  message :: string
  statusCode :: nat
  code :: string
  isOperational :: bool
  details :: "issue list"

definition badRequest :: "string \<Rightarrow> AppError" where
  "badRequest msg =
     \<lparr>message = msg, statusCode = 400, code = ''BAD_REQUEST'', isOperational = True,
      details = []\<rparr>"

definition validation :: "string \<Rightarrow> issue list \<Rightarrow> AppError" where
  "validation msg ds =
     \<lparr>message = msg, statusCode = 422, code = ''VALIDATION_ERROR'', isOperational = True,
      details = ds\<rparr>"

definition internal :: "string \<Rightarrow> AppError" where
  "internal msg =
     \<lparr>message = msg, statusCode = 500, code = ''INTERNAL_ERROR'', isOperational = False,
      details = []\<rparr>"

subsection \<open>\<open>createSale\<close> of \<open>sales.service.ts\<close>\<close>

text \<open>
  The input of the service after validation, and its result. The product identifier of a
  line is the identifier its text denotes. The total of the result is a JavaScript number.
\<close>

record SaleItemInput =
  productId :: uuid
  item_quantity :: int

record CustomerInput =
  firstName :: string
  lastName :: string
  email :: string

record CreateSaleInput =
  customer :: CustomerInput
  items :: "SaleItemInput list"

record SaleCreated =
  saleId :: uuid
  customerId :: uuid
  total :: rat

text \<open>
  A JavaScript number is a binary64 value: a rational with a significand of 53 bits. The
  number that the text of a decimal denotes is the nearest such value, a tie going to the
  even significand. The range of the exponent is left out: an amount of the store is
  zero or lies between \<open>0.01\<close> and \<open>10^8\<close>.
\<close>

definition round_half_even :: "rat \<Rightarrow> int" where
  "round_half_even y =
     (let n = \<lfloor>y\<rfloor>; r = y - of_int n
      in if r < 1 / 2 then n else if 1 / 2 < r then n + 1 else if even n then n else n + 1)"

text \<open>For a positive \<open>x\<close>, the exponent \<open>e\<close> with \<open>2^e \<le> x < 2^(e + 1)\<close>.\<close>

definition binade :: "rat \<Rightarrow> int" where
  "binade x =
     (let (a, b) = quotient_of x; d = bitlen a - bitlen b
      in if 2 powi d \<le> x then d else d - 1)"

definition to_double :: "rat \<Rightarrow> rat" where
  "to_double x =
     (if x = 0 then 0
      else (let ulp = 2 powi (binade \<bar>x\<bar> - 52)
            in sgn x * of_int (round_half_even (\<bar>x\<bar> / ulp)) * ulp))"

text \<open>\<open>parseFloat\<close> of the total of the reply, an amount with two fractional digits.\<close>

definition parseFloat :: "decimal \<Rightarrow> rat" where
  "parseFloat amount = to_double (of_int amount / 100)"

text \<open>
  What \<open>supabase.rpc\<close> hands back: an error of the client or the store outside the
  function, no data, or the object the function returned.
\<close>

datatype rpc_reply = Rpc_error | Rpc_null | Rpc_data sale_json

type_synonym rpc =
  "db \<Rightarrow> string \<Rightarrow> string \<Rightarrow> string \<Rightarrow> sale_item_input list \<Rightarrow> db \<times> rpc_reply"

definition rpc_items :: "CreateSaleInput \<Rightarrow> sale_item_input list" where
  "rpc_items saleData =
     map (\<lambda>item. \<lparr>product_id = productId item, quantity = item_quantity item\<rparr>)
       (items saleData)"

definition createSale :: "rpc \<Rightarrow> db \<Rightarrow> CreateSaleInput \<Rightarrow> db \<times> (AppError + SaleCreated)" where
  "createSale supabase_rpc s saleData =
     (let (s', reply) = supabase_rpc s (firstName (customer saleData))
                          (lastName (customer saleData)) (email (customer saleData))
                          (rpc_items saleData)
      in case reply of
           Rpc_error \<Rightarrow> (s', Inl (internal ''Failed to process sale''))
         | Rpc_null \<Rightarrow> (s', Inl (internal ''No response from process_sale RPC''))
         | Rpc_data (Json_failure msg) \<Rightarrow>
             (s', Inl (badRequest (if msg = [] then ''Failed to process sale'' else msg)))
         | Rpc_data (Json_success sid cid tot) \<Rightarrow>
             (s', Inr \<lparr>saleId = sid, customerId = cid, total = parseFloat tot\<rparr>))"

text \<open>
  The call reaching the function \<open>process_sale\<close> of the store at a given time. The
  arguments travel as JSON and are converted to the types of the parameters: a quantity
  outside the 32-bit \<open>INTEGER\<close> of \<open>sale_item_input\<close> makes the call fail before the
  function runs.
\<close>

definition is_int32 :: "int \<Rightarrow> bool" where
  "is_int32 i = (- 2147483648 \<le> i \<and> i \<le> 2147483647)"

definition process_sale_rpc :: "timestamp \<Rightarrow> rpc" where
  "process_sale_rpc now s p_first p_last p_email p_items =
     (if list_all (\<lambda>i. is_int32 (quantity i)) p_items then
        (let (s', result) = process_sale s now p_first p_last p_email p_items
         in (s', Rpc_data result))
      else (s, Rpc_error))"

subsection \<open>\<open>createSaleSchema\<close> and the middleware \<open>validate\<close>\<close>

text \<open>
  A request body of the right shape, before validation. A quantity is the value
  \<open>z.coerce.number()\<close> obtains: a rational (every finite JavaScript number is one), not
  a number, or an infinity. The patterns behind \<open>.uuid()\<close> and \<open>.email()\<close> belong to the
  schema library and are parameters: \<open>parse_uuid\<close> gives the identifier a text denotes
  when the pattern accepts it, \<open>is_email\<close> tells whether a text is an email address.
\<close>

datatype number = Num rat | NaN | Infinity | Minus_infinity

record RawSaleItem =
  raw_productId :: string
  raw_quantity :: number

record RawSale =
  raw_customer :: CustomerInput
  raw_items :: "RawSaleItem list"

definition is_integer :: "rat \<Rightarrow> bool" where
  "is_integer q = (of_int \<lfloor>q\<rfloor> = q)"

text \<open>The checks \<open>.int()\<close>, \<open>.positive()\<close> and \<open>.max(100)\<close>; each failing check adds its issue.\<close>

fun quantity_issues :: "string \<Rightarrow> number \<Rightarrow> issue list" where
  "quantity_issues path NaN = [\<lparr>field = path, issue_message = ''Expected number, received nan''\<rparr>]"
| "quantity_issues path Infinity =
     [\<lparr>field = path, issue_message = ''Quantity must be an integer''\<rparr>,
      \<lparr>field = path, issue_message = ''Quantity cannot exceed 100 per item''\<rparr>]"
| "quantity_issues path Minus_infinity =
     [\<lparr>field = path, issue_message = ''Quantity must be an integer''\<rparr>,
      \<lparr>field = path, issue_message = ''Quantity must be positive''\<rparr>]"
| "quantity_issues path (Num q) =
     (if \<not> is_integer q then [\<lparr>field = path, issue_message = ''Quantity must be an integer''\<rparr>]
      else []) @
     (if q \<le> 0 then [\<lparr>field = path, issue_message = ''Quantity must be positive''\<rparr>] else []) @
     (if q > 100 then [\<lparr>field = path, issue_message = ''Quantity cannot exceed 100 per item''\<rparr>]
      else [])"

fun number_value :: "number \<Rightarrow> int" where
  "number_value (Num q) = \<lfloor>q\<rfloor>"
| "number_value other = 0"

definition saleItemSchema ::
  "(string \<Rightarrow> uuid option) \<Rightarrow> string \<Rightarrow> RawSaleItem \<Rightarrow> issue list + SaleItemInput" where
  "saleItemSchema parse_uuid path item =
     (let found =
            (case parse_uuid (raw_productId item) of
               None \<Rightarrow> [\<lparr>field = path @ ''.productId'', issue_message = ''Invalid product ID''\<rparr>]
             | Some u \<Rightarrow> []) @
            quantity_issues (path @ ''.quantity'') (raw_quantity item)
      in case (found, parse_uuid (raw_productId item)) of
           ([], Some u) \<Rightarrow>
             Inr \<lparr>productId = u, item_quantity = number_value (raw_quantity item)\<rparr>
         | other \<Rightarrow> Inl found)"

definition name_issues :: "string \<Rightarrow> string \<Rightarrow> string \<Rightarrow> issue list" where
  "name_issues path label v =
     (if length v < 2 then
        [\<lparr>field = path, issue_message = label @ '' must be at least 2 characters''\<rparr>] else []) @
     (if length v > 50 then
        [\<lparr>field = path, issue_message = label @ '' must not exceed 50 characters''\<rparr>] else [])"

fun item_results ::
  "(string \<Rightarrow> uuid option) \<Rightarrow> nat \<Rightarrow> RawSaleItem list \<Rightarrow> (issue list + SaleItemInput) list" where
  "item_results parse_uuid k [] = []"
| "item_results parse_uuid k (item # rest) =
     saleItemSchema parse_uuid (''items.'' @ nat_text k) item #
     item_results parse_uuid (Suc k) rest"

fun issues_of :: "issue list + 'a \<Rightarrow> issue list" where
  "issues_of (Inl found) = found"
| "issues_of (Inr v) = []"

fun values_of :: "('e + 'a) list \<Rightarrow> 'a list" where
  "values_of [] = []"
| "values_of (Inl e # rest) = values_of rest"
| "values_of (Inr v # rest) = v # values_of rest"

definition customer_issues :: "(string \<Rightarrow> bool) \<Rightarrow> CustomerInput \<Rightarrow> issue list" where
  "customer_issues is_email c =
     name_issues ''customer.firstName'' ''First name'' (firstName c) @
     name_issues ''customer.lastName'' ''Last name'' (lastName c) @
     (if is_email (email c) then []
      else [\<lparr>field = ''customer.email'', issue_message = ''Invalid email format''\<rparr>])"

definition items_issues :: "(string \<Rightarrow> uuid option) \<Rightarrow> RawSaleItem list \<Rightarrow> issue list" where
  "items_issues parse_uuid xs =
     (if length xs < 1 then
        [\<lparr>field = ''items'', issue_message = ''At least one item is required''\<rparr>] else []) @
     (if length xs > 50 then
        [\<lparr>field = ''items'', issue_message = ''Cannot exceed 50 items per sale''\<rparr>] else []) @
     concat (map issues_of (item_results parse_uuid 0 xs))"

definition createSaleSchema ::
  "(string \<Rightarrow> uuid option) \<Rightarrow> (string \<Rightarrow> bool) \<Rightarrow> RawSale \<Rightarrow> issue list + CreateSaleInput" where
  "createSaleSchema parse_uuid is_email body =
     (let found = customer_issues is_email (raw_customer body) @
                  items_issues parse_uuid (raw_items body)
      in if found = [] then
           Inr \<lparr>customer = raw_customer body,
                items = values_of (item_results parse_uuid 0 (raw_items body))\<rparr>
         else Inl found)"

text \<open>The middleware applied to the body, and the route \<open>POST /\<close> of \<open>sales.routes.ts\<close>.\<close>

definition validate :: "('b \<Rightarrow> issue list + 'a) \<Rightarrow> 'b \<Rightarrow> AppError + 'a" where
  "validate schema body =
     (case schema body of
        Inl found \<Rightarrow> Inl (validation ''Validation failed for body'' found)
      | Inr data \<Rightarrow> Inr data)"

definition post_sales ::
  "(string \<Rightarrow> uuid option) \<Rightarrow> (string \<Rightarrow> bool) \<Rightarrow> rpc \<Rightarrow> db \<Rightarrow> RawSale
     \<Rightarrow> db \<times> (AppError + SaleCreated)" where
  "post_sales parse_uuid is_email supabase_rpc s body =
     (case validate (createSaleSchema parse_uuid is_email) body of
        Inl err \<Rightarrow> (s, Inl err)
      | Inr saleData \<Rightarrow> createSale supabase_rpc s saleData)"

text \<open>
  A quantity that the contract excludes: not an integer, not positive, or above 100.
\<close>

fun bad_quantity :: "number \<Rightarrow> bool" where
  "bad_quantity (Num q) = (\<not> is_integer q \<or> q \<le> 0 \<or> 100 < q)"
| "bad_quantity other = True"

text \<open>Requests to the service against the small store.\<close>

definition ann_buys :: "SaleItemInput list \<Rightarrow> CreateSaleInput" where
  "ann_buys xs =
     \<lparr>customer = \<lparr>firstName = ''Ann'', lastName = ''Lee'', email = ''a@x.com''\<rparr>, items = xs\<rparr>"

definition ann_posts :: "RawSaleItem list \<Rightarrow> RawSale" where
  "ann_posts xs =
     \<lparr>raw_customer = \<lparr>firstName = ''Ann'', lastName = ''Lee'', email = ''a@x.com''\<rparr>,
      raw_items = xs\<rparr>"

section \<open>The catalog mutations of \<open>products.service.ts\<close>\<close>

text \<open>
  The service writes the products table only. The description and the image of a product
  are columns that the sale processor never reads and are left out with the storage
  bucket. A price is the decimal amount the column stores.
\<close>

definition notFound :: "string \<Rightarrow> AppError" where
  "notFound msg =
     \<lparr>message = msg, statusCode = 404, code = ''NOT_FOUND'', isOperational = True,
      details = []\<rparr>"

text \<open>The column constraints a written product row has to meet.\<close>

definition products_check :: "product_row \<Rightarrow> bool" where
  "products_check p =
     (length (p_name p) \<le> 100 \<and> fits_decimal_10_2 (p_price p) \<and> 0 < p_price p \<and>
      0 \<le> p_stock p)"

definition getProductById :: "db \<Rightarrow> uuid \<Rightarrow> AppError + product_row" where
  "getProductById s pid =
     (case filter (\<lambda>p. p_id p = pid \<and> p_is_active p) (products s) of
        [p] \<Rightarrow> Inr p
      | other \<Rightarrow> Inl (notFound ''Product not found''))"

record UpdateProductInput =
  name :: "string option"
  price :: "decimal option"
  stock :: "int option"

definition updated_row :: "timestamp \<Rightarrow> UpdateProductInput \<Rightarrow> product_row \<Rightarrow> product_row" where
  "updated_row now productData p =
     p\<lparr>p_name := (case name productData of None \<Rightarrow> p_name p | Some v \<Rightarrow> v),
       p_price := (case price productData of None \<Rightarrow> p_price p | Some v \<Rightarrow> v),
       p_stock := (case stock productData of None \<Rightarrow> p_stock p | Some v \<Rightarrow> v),
       p_updated_at := now\<rparr>"

text \<open>
  The update writes every row that has the identifier and asks for the single row written.
  The primary key makes it one row; were there several, the request for a single row fails
  and nothing is written. A row that breaks a constraint fails the update in the same way.
\<close>

definition updateProduct ::
  "db \<Rightarrow> timestamp \<Rightarrow> uuid \<Rightarrow> UpdateProductInput \<Rightarrow> db \<times> (AppError + product_row)" where
  "updateProduct s now pid productData =
     (case getProductById s pid of
        Inl err \<Rightarrow> (s, Inl err)
      | Inr existingProduct \<Rightarrow>
          (let rows = map (\<lambda>p. if p_id p = pid then updated_row now productData p else p)
                        (products s)
           in case filter (\<lambda>p. p_id p = pid) rows of
                [p] \<Rightarrow>
                  if products_check p then (s\<lparr>products := rows\<rparr>, Inr p)
                  else (s, Inl (internal ''Failed to update product''))
              | other \<Rightarrow> (s, Inl (internal ''Failed to update product''))))"

definition deleteProduct :: "db \<Rightarrow> timestamp \<Rightarrow> uuid \<Rightarrow> db \<times> (AppError + unit)" where
  "deleteProduct s now pid =
     (case getProductById s pid of
        Inl err \<Rightarrow> (s, Inl err)
      | Inr existingProduct \<Rightarrow>
          (s\<lparr>products := map (\<lambda>p. if p_id p = pid
                                    then p\<lparr>p_is_active := False, p_updated_at := now\<rparr>
                                    else p) (products s)\<rparr>,
           Inr ()))"

definition createProduct ::
  "db \<Rightarrow> timestamp \<Rightarrow> string \<Rightarrow> decimal \<Rightarrow> int \<Rightarrow> db \<times> (AppError + product_row)" where
  "createProduct s now new_name new_price new_stock =
     (let p = \<lparr>p_id = uuid_generate_v4 s, p_name = new_name, p_price = new_price,
                p_stock = new_stock, p_is_active = True, p_updated_at = now\<rparr>
      in if products_check p then (s\<lparr>products := products s @ [p]\<rparr>, Inr p)
         else (s, Inl (internal ''Failed to create product'')))"

text \<open>A catalog mutation, and a run of mutations on the store.\<close>

datatype catalog_op =
  Create_product string decimal int
  | Update_product uuid UpdateProductInput
  | Delete_product uuid

fun catalog_step :: "db \<Rightarrow> timestamp \<times> catalog_op \<Rightarrow> db" where
  "catalog_step s (now, Create_product n pr st) = fst (createProduct s now n pr st)"
| "catalog_step s (now, Update_product pid productData) = fst (updateProduct s now pid productData)"
| "catalog_step s (now, Delete_product pid) = fst (deleteProduct s now pid)"

definition catalog_run :: "db \<Rightarrow> (timestamp \<times> catalog_op) list \<Rightarrow> db" where
  "catalog_run s ops = foldl catalog_step s ops"

text \<open>A later change of the price of the first product, and its soft deletion.\<close>

definition reprice :: "(timestamp \<times> catalog_op) list" where
  "reprice = [(7, Update_product 1 \<lparr>name = None, price = Some 900, stock = None\<rparr>),
              (8, Delete_product 1)]"

text \<open>A store whose only product costs \<open>0.10\<close>.\<close>

definition kiosk :: db where
  "kiosk = \<lparr>customers = [],
            products = [\<lparr>p_id = 1, p_name = ''Espresso'', p_price = 10, p_stock = 5,
                         p_is_active = True, p_updated_at = 0\<rparr>],
            sales = [], sale_items = []\<rparr>"

section \<open>Properties of \<open>process_sale\<close>\<close>

subsection \<open>The statements of the loop, one at a time\<close>

lemma requested_Nil [simp]: "requested pid [] = 0"
  by (simp add: requested_def)

lemma requested_Cons [simp]:
  "requested pid (i # its) = (if product_id i = pid then quantity i else 0) + requested pid its"
  by (simp add: requested_def)

lemma resolve_customer_frame:
  "resolve_customer s now f l e = Inr (s1, cid) \<Longrightarrow>
     products s1 = products s \<and> sales s1 = sales s \<and> sale_items s1 = sale_items s"
  by (auto simp: resolve_customer_def Let_def split: option.splits sum.splits if_splits)

lemma insert_sale_item_Inr:
  "insert_sale_item s sid pid qty pr sub = Inr s1 \<Longrightarrow>
     0 < qty \<and> 0 \<le> sub \<and> 0 \<le> pr \<and>
     s1 = s\<lparr>sale_items := sale_items s @
            [\<lparr>si_id = uuid_generate_v4 s, si_sale_id = sid, si_product_id = pid,
              si_quantity = qty, si_unit_price = pr, si_subtotal = sub\<rparr>]\<rparr>"
  by (auto simp: insert_sale_item_def split: if_splits)

lemma decrement_stock_Inr:
  "decrement_stock s now pid qty = Inr s2 \<Longrightarrow>
     s2 = s\<lparr>products := map (sold_row now pid qty) (products s)\<rparr> \<and>
     (\<forall>p \<in> set (products s). p_id p = pid \<longrightarrow> qty \<le> p_stock p)"
proof -
  assume a: "decrement_stock s now pid qty = Inr s2"
  have m: "map (\<lambda>p. if p_id p = pid then p\<lparr>p_stock := p_stock p - qty, p_updated_at := now\<rparr> else p) (products s)
        = map (sold_row now pid qty) (products s)"
    by (simp add: sold_row_def fun_eq_iff)
  from a have 1: "s2 = s\<lparr>products := map (sold_row now pid qty) (products s)\<rparr>"
    and 2: "\<not> (\<exists>p \<in> set (map (sold_row now pid qty) (products s)). p_id p = pid \<and> p_stock p < 0)"
    unfolding decrement_stock_def Let_def m by (simp_all split: if_splits)
  have "qty \<le> p_stock p" if "p \<in> set (products s)" "p_id p = pid" for p
  proof -
    from that have "sold_row now pid qty p \<in> set (map (sold_row now pid qty) (products s))" by simp
    moreover have "p_id (sold_row now pid qty p) = pid" using that by (simp add: sold_row_def)
    ultimately have "\<not> p_stock (sold_row now pid qty p) < 0" using 2 by blast
    then show ?thesis using that by (simp add: sold_row_def)
  qed
  with 1 show ?thesis by blast
qed

lemma sold_row_simps [simp]:
  "p_id (sold_row now pid qty p) = p_id p"
  "p_price (sold_row now pid qty p) = p_price p"
  "p_name (sold_row now pid qty p) = p_name p"
  "p_is_active (sold_row now pid qty p) = p_is_active p"
  "p_stock (sold_row now pid qty p) = p_stock p - (if p_id p = pid then qty else 0)"
  by (simp_all add: sold_row_def)

lemma find_map_id:
  assumes "\<And>p. p_id (f p) = p_id p"
  shows "find (\<lambda>p. p_id p = x) (map f ps) = map_option f (find (\<lambda>p. p_id p = x) ps)"
  using assms by (induction ps) auto

lemma process_items_step:
  assumes "process_items s now sid tot (it # rest) = Inr (s', tot')"
  shows "\<exists>p s1 s2.
    find (\<lambda>p. p_id p = product_id it) (products s) = Some p \<and>
    fits_decimal_10_2 (p_price p * quantity it) \<and>
    fits_decimal_10_2 (tot + p_price p * quantity it) \<and>
    insert_sale_item s sid (product_id it) (quantity it) (p_price p) (p_price p * quantity it) = Inr s1 \<and>
    decrement_stock s1 now (product_id it) (quantity it) = Inr s2 \<and>
    process_items s2 now sid (tot + p_price p * quantity it) rest = Inr (s', tot')"
  using assms by (auto simp: Let_def split: option.splits if_splits sum.splits)

lemma process_items_frame:
  "process_items s now sid tot its = Inr (s', tot') \<Longrightarrow>
     customers s' = customers s \<and> sales s' = sales s"
proof (induction its arbitrary: s tot)
  case Nil
  then show ?case by simp
next
  case (Cons it rest)
  from process_items_step [OF Cons.prems] obtain p :: product_row and s1 s2 where
    i: "insert_sale_item s sid (product_id it) (quantity it) (p_price p) (p_price p * quantity it) = Inr s1"
    and d: "decrement_stock s1 now (product_id it) (quantity it) = Inr s2"
    and r: "process_items s2 now sid (tot + p_price p * quantity it) rest = Inr (s', tot')"
    by blast
  from insert_sale_item_Inr [OF i] decrement_stock_Inr [OF d]
  have "customers s2 = customers s \<and> sales s2 = sales s" by simp
  with Cons.IH [OF r] show ?case by simp
qed

lemma process_items_products:
  "process_items s now sid tot its = Inr (s', tot') \<Longrightarrow>
     map p_id (products s') = map p_id (products s) \<and>
     map p_name (products s') = map p_name (products s) \<and>
     map p_price (products s') = map p_price (products s) \<and>
     map p_is_active (products s') = map p_is_active (products s) \<and>
     map p_stock (products s') =
       map (\<lambda>p. p_stock p - requested (p_id p) its) (products s)"
proof (induction its arbitrary: s tot)
  case Nil
  then show ?case by simp
next
  case (Cons it rest)
  from process_items_step [OF Cons.prems] obtain p :: product_row and s1 s2 where
    i: "insert_sale_item s sid (product_id it) (quantity it) (p_price p) (p_price p * quantity it) = Inr s1"
    and d: "decrement_stock s1 now (product_id it) (quantity it) = Inr s2"
    and r: "process_items s2 now sid (tot + p_price p * quantity it) rest = Inr (s', tot')"
    by blast
  from insert_sale_item_Inr [OF i] decrement_stock_Inr [OF d]
  have p2: "products s2 = map (sold_row now (product_id it) (quantity it)) (products s)" by simp
  from Cons.IH [OF r] show ?case
    unfolding p2 by (simp add: o_def algebra_simps cong: map_cong)
qed

lemma process_items_stock_nonneg:
  "process_items s now sid tot its = Inr (s', tot') \<Longrightarrow>
     \<forall>p \<in> set (products s). 0 \<le> p_stock p \<Longrightarrow>
     \<forall>p \<in> set (products s'). 0 \<le> p_stock p"
proof (induction its arbitrary: s tot)
  case Nil
  then show ?case by simp
next
  case (Cons it rest)
  from process_items_step [OF Cons.prems(1)] obtain p :: product_row and s1 s2 where
    i: "insert_sale_item s sid (product_id it) (quantity it) (p_price p) (p_price p * quantity it) = Inr s1"
    and d: "decrement_stock s1 now (product_id it) (quantity it) = Inr s2"
    and r: "process_items s2 now sid (tot + p_price p * quantity it) rest = Inr (s', tot')"
    by blast
  from insert_sale_item_Inr [OF i] decrement_stock_Inr [OF d]
  have p2: "products s2 = map (sold_row now (product_id it) (quantity it)) (products s)"
    and c: "\<forall>p \<in> set (products s). p_id p = product_id it \<longrightarrow> quantity it \<le> p_stock p"
    by simp_all
  have "\<forall>p \<in> set (products s2). 0 \<le> p_stock p"
    unfolding p2 using c Cons.prems(2) by auto
  with Cons.IH [OF r] show ?case by simp
qed

lemma requested_absent:
  "\<forall>i \<in> set its. product_id i \<noteq> pid \<Longrightarrow> requested pid its = 0"
  by (induction its) auto

lemma process_items_within_stock:
  "process_items s now sid tot its = Inr (s', tot') \<Longrightarrow>
     \<forall>p \<in> set (products s). (\<exists>i \<in> set its. product_id i = p_id p) \<longrightarrow>
        requested (p_id p) its \<le> p_stock p"
proof (induction its arbitrary: s tot)
  case Nil
  then show ?case by simp
next
  case (Cons it rest)
  from process_items_step [OF Cons.prems(1)] obtain p :: product_row and s1 s2 where
    i: "insert_sale_item s sid (product_id it) (quantity it) (p_price p) (p_price p * quantity it) = Inr s1"
    and d: "decrement_stock s1 now (product_id it) (quantity it) = Inr s2"
    and r: "process_items s2 now sid (tot + p_price p * quantity it) rest = Inr (s', tot')"
    by blast
  from insert_sale_item_Inr [OF i] decrement_stock_Inr [OF d]
  have p2: "products s2 = map (sold_row now (product_id it) (quantity it)) (products s)"
    and c: "\<forall>p \<in> set (products s). p_id p = product_id it \<longrightarrow> quantity it \<le> p_stock p"
    by simp_all
  note ih = Cons.IH [OF r, unfolded p2]
  show ?case
  proof (intro ballI impI)
    fix q assume q: "q \<in> set (products s)" and ex: "\<exists>i \<in> set (it # rest). product_id i = p_id q"
    let ?q' = "sold_row now (product_id it) (quantity it) q"
    have q': "?q' \<in> set (map (sold_row now (product_id it) (quantity it)) (products s))"
      using q by simp
    show "requested (p_id q) (it # rest) \<le> p_stock q"
    proof (cases "\<exists>i \<in> set rest. product_id i = p_id q")
      case True
      with ih q' have "requested (p_id ?q') rest \<le> p_stock ?q'" by (metis sold_row_simps(1))
      then show ?thesis by (auto split: if_splits)
    next
      case False
      then have z: "requested (p_id q) rest = 0" by (intro requested_absent) auto
      from False ex have "product_id it = p_id q" by auto
      with c q z show ?thesis by simp
    qed
  qed
qed

lemma process_items_rows:
  "process_items s now sid tot its = Inr (s', tot') \<Longrightarrow>
     \<exists>new. sale_items s' = sale_items s @ new \<and>
       (\<forall>i \<in> set new. si_sale_id i = sid \<and> si_subtotal i = si_quantity i * si_unit_price i) \<and>
       map (\<lambda>i. (si_product_id i, si_quantity i)) new =
         map (\<lambda>i. (product_id i, quantity i)) its \<and>
       list_all2 (\<lambda>row it. \<exists>p. find (\<lambda>p. p_id p = product_id it) (products s) = Some p \<and>
                     si_unit_price row = p_price p) new its \<and>
       tot' = tot + sum_list (map si_subtotal new)"
proof (induction its arbitrary: s tot)
  case Nil
  then show ?case by simp
next
  case (Cons it rest)
  from process_items_step [OF Cons.prems] obtain p :: product_row and s1 s2 where
    f: "find (\<lambda>p. p_id p = product_id it) (products s) = Some p"
    and i: "insert_sale_item s sid (product_id it) (quantity it) (p_price p) (p_price p * quantity it) = Inr s1"
    and d: "decrement_stock s1 now (product_id it) (quantity it) = Inr s2"
    and r: "process_items s2 now sid (tot + p_price p * quantity it) rest = Inr (s', tot')"
    by blast
  let ?row = "\<lparr>si_id = uuid_generate_v4 s, si_sale_id = sid, si_product_id = product_id it,
              si_quantity = quantity it, si_unit_price = p_price p,
              si_subtotal = p_price p * quantity it\<rparr>"
  from insert_sale_item_Inr [OF i] decrement_stock_Inr [OF d]
  have p2: "products s2 = map (sold_row now (product_id it) (quantity it)) (products s)"
    and i2: "sale_items s2 = sale_items s @ [?row]"
    by simp_all
  from Cons.IH [OF r] obtain new where
    n1: "sale_items s' = sale_items s2 @ new"
    and n2: "\<forall>i \<in> set new. si_sale_id i = sid \<and> si_subtotal i = si_quantity i * si_unit_price i"
    and n3: "map (\<lambda>i. (si_product_id i, si_quantity i)) new = map (\<lambda>i. (product_id i, quantity i)) rest"
    and n4: "list_all2 (\<lambda>row it. \<exists>p. find (\<lambda>p. p_id p = product_id it) (products s2) = Some p \<and>
                     si_unit_price row = p_price p) new rest"
    and n5: "tot' = tot + p_price p * quantity it + sum_list (map si_subtotal new)"
    by blast
  have n4': "list_all2 (\<lambda>row it. \<exists>p. find (\<lambda>p. p_id p = product_id it) (products s) = Some p \<and>
                     si_unit_price row = p_price p) new rest"
    using n4 unfolding p2 by (rule list_all2_mono) (auto simp: find_map_id)
  show ?case
  proof (intro exI [of _ "?row # new"] conjI)
    show "sale_items s' = sale_items s @ ?row # new" using n1 i2 by simp
    show "\<forall>i \<in> set (?row # new). si_sale_id i = sid \<and> si_subtotal i = si_quantity i * si_unit_price i"
      using n2 by (simp add: mult.commute)
    show "map (\<lambda>i. (si_product_id i, si_quantity i)) (?row # new) =
            map (\<lambda>i. (product_id i, quantity i)) (it # rest)" using n3 by simp
    show "list_all2 (\<lambda>row it. \<exists>p. find (\<lambda>p. p_id p = product_id it) (products s) = Some p \<and>
                     si_unit_price row = p_price p) (?row # new) (it # rest)"
      using n4' f by simp
    show "tot' = tot + sum_list (map si_subtotal (?row # new))" using n5 by simp
  qed
qed

lemma fold_max_ge: "(x::nat) \<in> set xs \<Longrightarrow> x \<le> fold max xs a"
proof (induction xs arbitrary: a)
  case Nil
  then show ?case by simp
next
  case (Cons y ys)
  have mono: "b \<le> fold max ys b" for b :: nat
    by (induction ys arbitrary: b) (auto intro: order_trans [OF max.cobounded2])
  from Cons show ?case
  proof (cases "x = y")
    case True
    have "y \<le> max y a" by simp
    also have "\<dots> \<le> fold max ys (max y a)" by (rule mono)
    finally show ?thesis using True by simp
  next
    case False
    with Cons show ?thesis by simp
  qed
qed

lemma uuid_generate_v4_fresh: "x \<in> set (all_uuids s) \<Longrightarrow> x < uuid_generate_v4 s"
  unfolding uuid_generate_v4_def using fold_max_ge [of x "all_uuids s" 0] by simp

lemma process_sale_cases:
  assumes "process_sale s now f l e its = (s', out)"
  obtains
    (rejected) msg s1 cid where
      "validate_items (products s) its = Some msg"
      "resolve_customer s now f l e = Inr (s1, cid)"
      "s' = s1" "out = Json_failure msg"
  | (failed) err where
      "s' = s" "out = Json_failure (''Transaction failed: '' @ sqlerrm err)"
  | (committed) s1 cid s3 tot where
      "validate_items (products s) its = None"
      "resolve_customer s now f l e = Inr (s1, cid)"
      "process_items (new_sale s1 (uuid_generate_v4 s1) cid) now (uuid_generate_v4 s1) 0 its
         = Inr (s3, tot)"
      "0 \<le> tot"
      "s' = s3\<lparr>sales := map (set_total (uuid_generate_v4 s1) tot) (sales s3)\<rparr>"
      "out = Json_success (uuid_generate_v4 s1) cid tot"
proof (cases "resolve_customer s now f l e")
  case (Inl err)
  with assms have "s' = s" "out = Json_failure (''Transaction failed: '' @ sqlerrm err)"
    by (auto simp: process_sale_def process_sale_block_def)
  then show thesis by (rule failed)
next
  case (Inr r1)
  obtain s1 cid where r1: "r1 = (s1, cid)" by force
  with Inr have rc: "resolve_customer s now f l e = Inr (s1, cid)" by simp
  then have ps: "products s1 = products s" by (simp add: resolve_customer_frame)
  have st: "(\<lambda>r. if s_id r = sid then r\<lparr>s_total := tot\<rparr> else r) = set_total sid tot" for sid tot
    by (simp add: set_total_def fun_eq_iff)
  show thesis
  proof (cases "validate_items (products s) its")
    case (Some msg)
    with assms rc ps have "s' = s1" "out = Json_failure msg"
      by (auto simp: process_sale_def process_sale_block_def)
    with Some rc show thesis by (intro rejected [of msg s1 cid]) auto
  next
    case None
    show thesis
    proof (cases "process_items (new_sale s1 (uuid_generate_v4 s1) cid) now (uuid_generate_v4 s1) 0 its")
      case (Inl err)
      with assms rc ps None have "s' = s" "out = Json_failure (''Transaction failed: '' @ sqlerrm err)"
        by (auto simp: process_sale_def process_sale_block_def Let_def new_sale_def)
      then show thesis by (rule failed)
    next
      case (Inr r)
      obtain s3 tot where r: "r = (s3, tot)" by force
      show thesis
      proof (cases "tot < 0")
        case True
        with assms rc ps None Inr r
        have "s' = s" "out = Json_failure (''Transaction failed: '' @ sqlerrm (check_violation ''sales'' ''sales_total_check''))"
          by (auto simp: process_sale_def process_sale_block_def Let_def new_sale_def)
        then show thesis by (rule failed)
      next
        case False
        with assms rc ps None Inr r
        have "s' = s3\<lparr>sales := map (set_total (uuid_generate_v4 s1) tot) (sales s3)\<rparr>"
          "out = Json_success (uuid_generate_v4 s1) cid tot"
          by (auto simp: process_sale_def process_sale_block_def Let_def new_sale_def st)
        with None rc Inr r False show thesis by (intro committed [of s1 cid s3 tot]) auto
      qed
    qed
  qed
qed

lemma process_sale_stock:
  assumes "process_sale s now f l e its = (s', out)"
  shows "map p_id (products s') = map p_id (products s) \<and>
         map p_stock (products s') =
           map (\<lambda>p. p_stock p - (if is_success out then requested (p_id p) its else 0))
             (products s)"
  using assms
proof (cases rule: process_sale_cases)
  case (rejected msg s1 cid)
  with resolve_customer_frame [OF rejected(2)] show ?thesis by simp
next
  case (failed err)
  then show ?thesis by simp
next
  case (committed s1 cid s3 tot)
  from resolve_customer_frame [OF committed(2)] process_items_products [OF committed(3)] committed(5,6)
  show ?thesis by (simp add: new_sale_def)
qed

lemma process_sale_stock_nonneg:
  assumes "process_sale s now f l e its = (s', out)"
    and "\<forall>p \<in> set (products s). 0 \<le> p_stock p"
  shows "\<forall>p \<in> set (products s'). 0 \<le> p_stock p"
  using assms(1)
proof (cases rule: process_sale_cases)
  case (rejected msg s1 cid)
  with resolve_customer_frame [OF rejected(2)] assms(2) show ?thesis by simp
next
  case (failed err)
  with assms(2) show ?thesis by simp
next
  case (committed s1 cid s3 tot)
  from resolve_customer_frame [OF committed(2)] assms(2)
  have "\<forall>p \<in> set (products (new_sale s1 (uuid_generate_v4 s1) cid)). 0 \<le> p_stock p"
    by (simp add: new_sale_def)
  from process_items_stock_nonneg [OF committed(3) this] committed(5)
  show ?thesis by simp
qed

lemma process_sales_stock:
  "map p_id (products (fst (process_sales s calls))) = map p_id (products s) \<and>
   map p_stock (products (fst (process_sales s calls))) =
     map (\<lambda>p. p_stock p - committed_quantity (p_id p) calls (snd (process_sales s calls)))
       (products s)"
proof (induction calls arbitrary: s)
  case Nil
  show ?case by simp
next
  case (Cons c cs)
  obtain s1 out where 1: "process_sale s (call_at c) (call_first_name c) (call_last_name c)
                        (call_email c) (call_items c) = (s1, out)" by force
  obtain s2 outs where 2: "process_sales s1 cs = (s2, outs)" by force
  from Cons [of s1] 2 have ih: "map p_id (products s2) = map p_id (products s1)"
    "map p_stock (products s2) = map (\<lambda>p. p_stock p - committed_quantity (p_id p) cs outs) (products s1)"
    by simp_all
  from process_sale_stock [OF 1] have st: "map p_id (products s1) = map p_id (products s)"
    "map p_stock (products s1) =
           map (\<lambda>p. p_stock p - (if is_success out then requested (p_id p) (call_items c) else 0))
             (products s)" by simp_all
  have len: "length (products s1) = length (products s)" using st(1) by (rule map_eq_imp_length_eq)
  have "map p_stock (products s2) =
     map (\<lambda>p. p_stock p - committed_quantity (p_id p) (c # cs) (out # outs)) (products s)"
  proof (rule nth_equalityI)
    show "length (map p_stock (products s2)) = length (map (\<lambda>p. p_stock p - committed_quantity (p_id p) (c # cs) (out # outs)) (products s))"
      using ih(1) len by (metis length_map)
  next
    fix i assume "i < length (map p_stock (products s2))"
    then have i2: "i < length (products s2)" by simp
    then have i1: "i < length (products s1)" using ih(1) by (metis length_map)
    then have i0: "i < length (products s)" using len by simp
    have a: "p_stock (products s2 ! i) = p_stock (products s1 ! i) - committed_quantity (p_id (products s1 ! i)) cs outs"
      using ih(2) i1 i2 by (metis (no_types, lifting) nth_map)
    have b: "p_stock (products s1 ! i) = p_stock (products s ! i) - (if is_success out then requested (p_id (products s ! i)) (call_items c) else 0)"
      using st(2) i1 i0 by (metis (no_types, lifting) nth_map)
    have c: "p_id (products s1 ! i) = p_id (products s ! i)"
      using st(1) i1 i0 by (metis nth_map)
    show "map p_stock (products s2) ! i = map (\<lambda>p. p_stock p - committed_quantity (p_id p) (c # cs) (out # outs)) (products s) ! i"
      using i2 i0 a b c by simp
  qed
  with ih(1) st(1) 1 2 show ?case by simp
qed

lemma process_sales_stock_nonneg:
  "\<forall>p \<in> set (products s). 0 \<le> p_stock p \<Longrightarrow>
   \<forall>p \<in> set (products (fst (process_sales s calls))). 0 \<le> p_stock p"
proof (induction calls arbitrary: s)
  case Nil
  then show ?case by simp
next
  case (Cons c cs)
  obtain s1 out where 1: "process_sale s (call_at c) (call_first_name c) (call_last_name c)
                        (call_email c) (call_items c) = (s1, out)" by force
  from process_sale_stock_nonneg [OF 1 Cons.prems]
  have "\<forall>p \<in> set (products (fst (process_sales s1 cs))). 0 \<le> p_stock p" by (rule Cons.IH)
  with 1 show ?case by (simp add: split_beta)
qed

subsection \<open>Stock conservation\<close>

text \<open>
  Claim C2. For every product row and every run of \<open>process_sale\<close> calls, the stock after
  the run is the stock before it minus the quantities of that product in the calls that
  committed, and, when no stock is negative at the start, no stock is negative after any
  prefix of the run.
\<close>

theorem stock_conservation:
  assumes "\<forall>p \<in> set (products s). 0 \<le> p_stock p"
  shows "map p_id (products (fst (process_sales s calls))) = map p_id (products s) \<and>
   map p_stock (products (fst (process_sales s calls))) =
     map (\<lambda>p. p_stock p - committed_quantity (p_id p) calls (snd (process_sales s calls)))
       (products s) \<and>
   (\<forall>n. \<forall>p \<in> set (products (fst (process_sales s (take n calls)))). 0 \<le> p_stock p)"
  using process_sales_stock [of s calls] process_sales_stock_nonneg [OF assms] by blast

theorem stock_conservation_witness:
  "list_all (\<lambda>p. 0 \<le> p_stock p) (products shop) \<and>
   map is_success (snd (process_sales shop [ann 3, ann 30, ann 7])) = [True, False, True] \<and>
   map p_stock (products (fst (process_sales shop [ann 3, ann 30, ann 7]))) = [0, 4] \<and>
   list_all (\<lambda>p. 0 \<le> p_stock p)
     (products (fst (process_sales shop (take 2 [ann 3, ann 30, ann 7]))))"
proof -
  have h: "\<forall>p \<in> set (products shop). 0 \<le> p_stock p" by (simp add: shop_def)
  have o: "map is_success (snd (process_sales shop [ann 3, ann 30, ann 7])) = [True, False, True]"
    by code_simp
  have c: "map (\<lambda>p. p_stock p - committed_quantity (p_id p) [ann 3, ann 30, ann 7]
                 (snd (process_sales shop [ann 3, ann 30, ann 7]))) (products shop) = [0, 4]"
    by code_simp
  note t = stock_conservation [OF h, of "[ann 3, ann 30, ann 7]"]
  from t c have a: "map p_stock (products (fst (process_sales shop [ann 3, ann 30, ann 7]))) = [0, 4]"
    by (simp only:)
  from t have "\<forall>p \<in> set (products (fst (process_sales shop (take 2 [ann 3, ann 30, ann 7])))).
      0 \<le> p_stock p" by blast
  then have b: "list_all (\<lambda>p. 0 \<le> p_stock p)
     (products (fst (process_sales shop (take 2 [ann 3, ann 30, ann 7]))))"
    by (simp only: list_all_iff)
  from h have "list_all (\<lambda>p. 0 \<le> p_stock p) (products shop)" by (simp only: list_all_iff)
  with o a b show ?thesis by (intro conjI)
qed

subsection \<open>Totals\<close>

lemma fresh_sale_id:
  assumes "resolve_customer s now f l e = Inr (s1, cid)"
  shows "\<forall>r \<in> set (sales s). s_id r \<noteq> uuid_generate_v4 s1"
    and "\<forall>i \<in> set (sale_items s). si_sale_id i \<noteq> uuid_generate_v4 s1"
proof -
  from resolve_customer_frame [OF assms]
  have eq: "sales s1 = sales s" "sale_items s1 = sale_items s" by simp_all
  show "\<forall>r \<in> set (sales s). s_id r \<noteq> uuid_generate_v4 s1"
  proof
    fix r assume "r \<in> set (sales s)"
    then have "s_id r \<in> set (all_uuids s1)" by (simp add: all_uuids_def eq)
    from uuid_generate_v4_fresh [OF this] show "s_id r \<noteq> uuid_generate_v4 s1" by simp
  qed
  show "\<forall>i \<in> set (sale_items s). si_sale_id i \<noteq> uuid_generate_v4 s1"
  proof
    fix i assume "i \<in> set (sale_items s)"
    then have "si_sale_id i \<in> set (all_uuids s1)" by (simp add: all_uuids_def eq)
    from uuid_generate_v4_fresh [OF this] show "si_sale_id i \<noteq> uuid_generate_v4 s1" by simp
  qed
qed

lemma committed_tables:
  assumes rc: "resolve_customer s now f l e = Inr (s1, cid)"
    and pi: "process_items (new_sale s1 (uuid_generate_v4 s1) cid) now (uuid_generate_v4 s1) 0 its
         = Inr (s3, tot)"
    and s': "s' = s3\<lparr>sales := map (set_total (uuid_generate_v4 s1) tot) (sales s3)\<rparr>"
  shows "\<exists>new. sales s' = sales s @ [\<lparr>s_id = uuid_generate_v4 s1, s_customer_id = cid, s_total = tot\<rparr>] \<and>
     sale_items s' = sale_items s @ new \<and>
     (\<forall>i \<in> set new. si_sale_id i = uuid_generate_v4 s1 \<and> si_subtotal i = si_quantity i * si_unit_price i) \<and>
     map (\<lambda>i. (si_product_id i, si_quantity i)) new = map (\<lambda>i. (product_id i, quantity i)) its \<and>
     list_all2 (\<lambda>row it. \<exists>p. find (\<lambda>p. p_id p = product_id it) (products s) = Some p \<and>
                     si_unit_price row = p_price p) new its \<and>
     tot = sum_list (map si_subtotal new)"
proof -
  let ?sid = "uuid_generate_v4 s1"
  from resolve_customer_frame [OF rc]
  have eq: "sales s1 = sales s" "sale_items s1 = sale_items s" "products s1 = products s" by simp_all
  from process_items_rows [OF pi] obtain new where
    n1: "sale_items s3 = sale_items s @ new"
    and n2: "\<forall>i \<in> set new. si_sale_id i = ?sid \<and> si_subtotal i = si_quantity i * si_unit_price i"
    and n3: "map (\<lambda>i. (si_product_id i, si_quantity i)) new = map (\<lambda>i. (product_id i, quantity i)) its"
    and n4: "list_all2 (\<lambda>row it. \<exists>p. find (\<lambda>p. p_id p = product_id it) (products s) = Some p \<and>
                     si_unit_price row = p_price p) new its"
    and n5: "tot = sum_list (map si_subtotal new)"
    by (auto simp: new_sale_def eq)
  from process_items_frame [OF pi]
  have s3: "sales s3 = sales s @ [\<lparr>s_id = ?sid, s_customer_id = cid, s_total = 0\<rparr>]"
    by (simp add: new_sale_def eq)
  have old: "map (set_total ?sid tot) (sales s) = sales s"
    using fresh_sale_id(1) [OF rc] by (simp add: set_total_def map_idI)
  have "sales s' = sales s @ [\<lparr>s_id = ?sid, s_customer_id = cid, s_total = tot\<rparr>]"
    unfolding s' by (simp add: s3 old) (simp add: set_total_def)
  moreover have "sale_items s' = sale_items s @ new" unfolding s' using n1 by simp
  ultimately show ?thesis using n2 n3 n4 n5 by blast
qed

lemma process_sale_totals:
  assumes "sale_consistent s" and "process_sale s now f l e its = (s', out)"
  shows "sale_consistent s' \<and>
    (\<forall>sid cid tot. out = Json_success sid cid tot \<longrightarrow>
       filter (\<lambda>r. s_id r = sid) (sales s') = [\<lparr>s_id = sid, s_customer_id = cid, s_total = tot\<rparr>] \<and>
       tot = sum_list (map si_subtotal (items_of_sale s' sid)) \<and>
       map (\<lambda>i. (si_product_id i, si_quantity i)) (items_of_sale s' sid) =
         map (\<lambda>i. (product_id i, quantity i)) its)"
  using assms(2)
proof (cases rule: process_sale_cases)
  case (rejected msg s1 cid)
  from resolve_customer_frame [OF rejected(2)] rejected assms(1)
  show ?thesis by (simp add: sale_consistent_def items_of_sale_def)
next
  case (failed err)
  with assms(1) show ?thesis by simp
next
  case (committed s1 cid s3 tot)
  let ?sid = "uuid_generate_v4 s1"
  from committed_tables [OF committed(2,3,5)] obtain new where
    t1: "sales s' = sales s @ [\<lparr>s_id = ?sid, s_customer_id = cid, s_total = tot\<rparr>]"
    and t2: "sale_items s' = sale_items s @ new"
    and t3: "\<forall>i \<in> set new. si_sale_id i = ?sid \<and> si_subtotal i = si_quantity i * si_unit_price i"
    and t4: "map (\<lambda>i. (si_product_id i, si_quantity i)) new = map (\<lambda>i. (product_id i, quantity i)) its"
    and t5: "tot = sum_list (map si_subtotal new)"
    by blast
  note fr = fresh_sale_id [OF committed(2)]
  have new_items: "items_of_sale s' ?sid = new"
    unfolding items_of_sale_def t2 using fr(2) t3 by (simp add: filter_id_conv filter_empty_conv)
  have old_items: "items_of_sale s' x = items_of_sale s x" if "x \<noteq> ?sid" for x
    unfolding items_of_sale_def t2 using t3 that by (auto simp: filter_empty_conv)
  have cons: "sale_consistent s'"
    unfolding sale_consistent_def
  proof (intro conjI ballI)
    fix r assume "r \<in> set (sales s')"
    then consider "r \<in> set (sales s)" | "r = \<lparr>s_id = ?sid, s_customer_id = cid, s_total = tot\<rparr>"
      unfolding t1 by auto
    then show "s_total r = sum_list (map si_subtotal (items_of_sale s' (s_id r)))"
    proof cases
      case 1
      with fr(1) have "s_id r \<noteq> ?sid" by blast
      from old_items [OF this] 1 assms(1) show ?thesis by (simp add: sale_consistent_def)
    next
      case 2
      then show ?thesis using new_items t5 by simp
    qed
  next
    fix i assume "i \<in> set (sale_items s')"
    then show "si_subtotal i = si_quantity i * si_unit_price i"
      unfolding t2 using t3 assms(1) by (auto simp: sale_consistent_def)
  qed
  have "filter (\<lambda>r. s_id r = ?sid) (sales s') = [\<lparr>s_id = ?sid, s_customer_id = cid, s_total = tot\<rparr>]"
    unfolding t1 using fr(1) by (simp add: filter_empty_conv)
  with cons new_items t4 t5 committed(6) show ?thesis by simp
qed

lemma process_items_total_fits:
  "process_items s now sid tot its = Inr (s', tot') \<Longrightarrow> fits_decimal_10_2 tot \<Longrightarrow>
     fits_decimal_10_2 tot'"
proof (induction its arbitrary: s tot)
  case Nil
  then show ?case by simp
next
  case (Cons it rest)
  from process_items_step [OF Cons.prems(1)] obtain p :: product_row and s1 s2 where
    "fits_decimal_10_2 (tot + p_price p * quantity it)"
    "process_items s2 now sid (tot + p_price p * quantity it) rest = Inr (s', tot')"
    by blast
  then show ?case by (rule Cons.IH [rotated])
qed

lemma committed_total_range:
  assumes "process_sale s now f l e its = (s', Json_success sid cid tot)"
  shows "0 \<le> tot \<and> tot < 10000000000"
  using assms
proof (cases rule: process_sale_cases)
  case (rejected msg s1 c)
  then show ?thesis by simp
next
  case (failed err)
  then show ?thesis by simp
next
  case (committed s1 c s3 t)
  from process_items_total_fits [OF committed(3)] have "fits_decimal_10_2 t"
    by (simp add: fits_decimal_10_2_def)
  with committed(4,6) show ?thesis by (simp add: fits_decimal_10_2_def)
qed

subsection \<open>The total as a JavaScript number\<close>

lemma round_half_even_error: "\<bar>of_int (round_half_even y) - y\<bar> \<le> 1 / 2"
proof -
  have "of_int \<lfloor>y\<rfloor> \<le> y" "y < of_int \<lfloor>y\<rfloor> + 1" by linarith+
  then show ?thesis by (auto simp: round_half_even_def Let_def)
qed

lemma binade_lower:
  assumes "0 < x"
  shows "2 powi binade x \<le> x"
proof -
  obtain a b where q: "quotient_of x = (a, b)" by force
  then have b: "0 < b" and x: "x = of_int a / of_int b"
    by (simp_all add: quotient_of_denom_pos quotient_of_div)
  with assms have a: "0 < a" by (simp add: zero_less_divide_iff)
  let ?d = "bitlen a - bitlen b"
  show ?thesis
  proof (cases "2 powi ?d \<le> x")
    case True
    with q show ?thesis by (simp add: binade_def)
  next
    case False
    from bitlen_bounds [OF a] have la: "(2::int) ^ nat (bitlen a - 1) \<le> a" by simp
    from bitlen_bounds [OF b] have lb: "b < (2::int) ^ nat (bitlen b)" by simp
    have pa: "0 < bitlen a" and pb: "0 < bitlen b" using a b bitlen_nonneg [of a] bitlen_nonneg [of b]
        bitlen_eq_zero_iff [of a] bitlen_eq_zero_iff [of b] by linarith+
    have ra: "(2::rat) powi (bitlen a - 1) \<le> of_int a"
    proof -
      have "(2::rat) powi (bitlen a - 1) = 2 ^ nat (bitlen a - 1)"
        using pa by (simp add: power_int_def)
      also have "\<dots> = of_int (2 ^ nat (bitlen a - 1))" by simp
      also have "\<dots> \<le> of_int a" using la by (simp only: of_int_le_iff)
      finally show ?thesis .
    qed
    have rb: "of_int b \<le> (2::rat) powi bitlen b"
    proof -
      have "(of_int b :: rat) \<le> of_int (2 ^ nat (bitlen b))" using lb by (simp only: of_int_le_iff)
      also have "\<dots> = 2 powi bitlen b" using pb by (simp add: power_int_def)
      finally show ?thesis .
    qed
    have "(2::rat) powi (?d - 1) = 2 powi (bitlen a - 1) / 2 powi bitlen b"
      by (simp add: power_int_diff)
    also have "\<dots> \<le> of_int a / 2 powi bitlen b"
      using ra by (simp add: divide_right_mono)
    also have "\<dots> \<le> of_int a / of_int b"
      using rb a b by (simp add: frac_le)
    finally have "(2::rat) powi (?d - 1) \<le> x" using x by simp
    with False q show ?thesis by (simp add: binade_def)
  qed
qed

lemma to_double_error:
  assumes "0 < x"
  shows "\<bar>to_double x - x\<bar> \<le> x / 2 ^ 53"
proof -
  let ?ulp = "(2::rat) powi (binade x - 52)"
  let ?m = "round_half_even (x / ?ulp)"
  have u: "0 < ?ulp" by simp
  from assms have d: "to_double x = of_int ?m * ?ulp"
    by (simp add: to_double_def Let_def)
  have "\<bar>of_int ?m * ?ulp - x\<bar> = \<bar>of_int ?m - x / ?ulp\<bar> * ?ulp"
  proof -
    have "of_int ?m * ?ulp - x = (of_int ?m - x / ?ulp) * ?ulp"
      using u by (simp add: field_simps)
    then show ?thesis using u by (simp add: abs_mult)
  qed
  also have "\<dots> \<le> (1 / 2) * ?ulp"
    using round_half_even_error [of "x / ?ulp"] u by (intro mult_right_mono) simp_all
  also have "\<dots> = 2 powi binade x / 2 ^ 53"
  proof -
    have "?ulp = 2 powi binade x / 2 powi 52" by (simp add: power_int_diff)
    then show ?thesis by simp
  qed
  also have "\<dots> \<le> x / 2 ^ 53"
    using binade_lower [OF assms] by (simp add: divide_right_mono)
  finally show ?thesis using d by simp
qed

lemma parseFloat_error:
  assumes "0 \<le> c"
  shows "\<bar>parseFloat c - of_int c / 100\<bar> \<le> of_int c / 100 / 2 ^ 53"
proof (cases "c = 0")
  case True
  then show ?thesis by (simp add: parseFloat_def to_double_def)
next
  case False
  with assms have "0 < (of_int c / 100 :: rat)" by simp
  from to_double_error [OF this] show ?thesis by (simp add: parseFloat_def)
qed

lemma parseFloat_round_trip:
  assumes "0 \<le> c" and "c < 10000000000"
  shows "\<lfloor>100 * parseFloat c + 1 / 2\<rfloor> = c"
proof -
  let ?d = "parseFloat c"
  from parseFloat_error [OF assms(1)]
  have "\<bar>100 * ?d - of_int c\<bar> \<le> of_int c / 2 ^ 53" by (simp add: field_simps abs_if split: if_splits)
  moreover have "(of_int c :: rat) / 2 ^ 53 < 1 / 2"
  proof -
    have "(of_int c :: rat) < 10000000000" using assms(2) by (simp add: of_int_less_iff [symmetric] del: of_int_less_iff)
    then show ?thesis by simp
  qed
  ultimately have "\<bar>100 * ?d - of_int c\<bar> < 1 / 2" by linarith
  then have "of_int c \<le> 100 * ?d + 1 / 2" "100 * ?d + 1 / 2 < of_int c + 1"
    by linarith+
  then show ?thesis by (intro floor_unique) simp_all
qed

subsection \<open>The customer step\<close>


lemma varchar_fits: "length v \<le> n \<Longrightarrow> varchar n v = Inr v"
  by (simp add: varchar_def)

lemma renamed_simps [simp]:
  "c_email (renamed cid now f l r) = c_email r"
  "c_id (renamed cid now f l r) = c_id r"
  by (simp_all add: renamed_def)


lemma resolve_customer_fits:
  assumes "length f \<le> 50" and "length l \<le> 50" and "length e \<le> 255"
  shows "\<exists>s1 cid. resolve_customer s now f l e = Inr (s1, cid)"
proof (cases "find (\<lambda>c. c_email c = e) (customers s)")
  case None
  then have "\<not> (\<exists>c \<in> set (customers s). c_email c = e)" by (simp add: find_None_iff)
  with None assms show ?thesis
    by (simp add: resolve_customer_def varchar_fits Let_def)
next
  case (Some c)
  with assms show ?thesis by (simp add: resolve_customer_def varchar_fits)
qed

lemma process_sale_refused:
  assumes "resolve_customer s now f l e = Inl err"
  shows "process_sale s now f l e its =
           (s, Json_failure (''Transaction failed: '' @ sqlerrm err))"
  using assms by (simp add: process_sale_def process_sale_block_def)

subsection \<open>Order of validation\<close>

lemma validate_items_first_failure:
  "\<forall>x \<in> set pre. first_failing_check ps x = None \<Longrightarrow>
   first_failing_check ps it = Some r \<Longrightarrow>
   validate_items ps (pre @ it # post) = Some (rejection_message r)"
proof (induction pre)
  case Nil
  then show ?case
    by (auto simp: first_failing_check_def split: option.splits if_splits)
next
  case (Cons x pre)
  then show ?case
    by (auto simp: first_failing_check_def split: option.splits if_splits)
qed

lemma validate_items_pass:
  "\<forall>x \<in> set its. first_failing_check ps x = None \<Longrightarrow> validate_items ps its = None"
  by (induction its) (auto simp: first_failing_check_def split: option.splits if_splits)

lemma process_sale_rejected:
  assumes "resolve_customer s now f l e = Inr (s1, cid)"
    and "validate_items (products s) its = Some msg"
  shows "process_sale s now f l e its = (s1, Json_failure msg)"
proof -
  from resolve_customer_frame [OF assms(1)] have "products s1 = products s" by simp
  with assms show ?thesis by (simp add: process_sale_def process_sale_block_def)
qed

text \<open>
  Claim C5, as the code has it. Suppose the customer step of the call succeeds; names of
  at most 50 characters and an email of at most 255 characters are enough for that. When
  every line item before some item passes the three checks and that item fails one,
  \<open>process_sale\<close> returns the rejection of that item's first failing check (existence,
  then the active flag, then the stock), whatever follows it in the request, and leaves
  the products as they were. The message names the identifier that was not found or the
  product, and gives the available and requested quantities for a lack of stock. A
  request whose first item is valid and whose second item names an inactive product is
  the case \<open>pre = [first]\<close>.
\<close>

theorem validation_order:
  assumes "resolve_customer s now f l e = Inr (s1, cid)"
    and "\<forall>x \<in> set pre. first_failing_check (products s) x = None"
    and "first_failing_check (products s) it = Some r"
  shows "process_sale s now f l e (pre @ it # post) = (s1, Json_failure (rejection_message r)) \<and>
         products s1 = products s"
proof -
  from validate_items_first_failure [OF assms(2,3)]
  have "validate_items (products s) (pre @ it # post) = Some (rejection_message r)" .
  from process_sale_rejected [OF assms(1) this] resolve_customer_frame [OF assms(1)]
  show ?thesis by simp
qed

theorem validation_order_witness:
  "list_all (\<lambda>x. first_failing_check (products shop) x = None) [\<lparr>product_id = 1, quantity = 3\<rparr>] \<and>
   first_failing_check (products shop) \<lparr>product_id = 2, quantity = 20\<rparr> =
     Some (PRODUCT_INACTIVE ''Mocha'') \<and>
   snd (process_sale shop 5 ''Ann'' ''Lee'' ''a@x.com''
          [\<lparr>product_id = 1, quantity = 3\<rparr>, \<lparr>product_id = 2, quantity = 20\<rparr>,
           \<lparr>product_id = 9, quantity = 2\<rparr>]) = Json_failure ''Product is not active: Mocha'' \<and>
   map p_stock (products (fst (process_sale shop 5 ''Ann'' ''Lee'' ''a@x.com''
          [\<lparr>product_id = 1, quantity = 3\<rparr>, \<lparr>product_id = 2, quantity = 20\<rparr>,
           \<lparr>product_id = 9, quantity = 2\<rparr>]))) = [10, 4]"
proof -
  have a: "\<forall>x \<in> set [\<lparr>product_id = 1, quantity = 3\<rparr>]. first_failing_check (products shop) x = None"
    by (simp add: first_failing_check_def shop_def)
  have b: "first_failing_check (products shop) \<lparr>product_id = 2, quantity = 20\<rparr> =
     Some (PRODUCT_INACTIVE ''Mocha'')"
    by (simp add: first_failing_check_def shop_def)
  have c: "map p_stock (products shop) = [10, 4]" by (simp add: shop_def)
  obtain s1 cid where rc: "resolve_customer shop 5 ''Ann'' ''Lee'' ''a@x.com'' = Inr (s1, cid)"
    using resolve_customer_fits [of "''Ann''" "''Lee''" "''a@x.com''" shop 5] by auto
  from validation_order [OF rc a b, of "[\<lparr>product_id = 9, quantity = 2\<rparr>]"] a b c
  show ?thesis by (simp add: list_all_iff)
qed

text \<open>
  The request of the claim with an email of 256 characters: the second item names the
  inactive product, and the call fails in the customer step, before any item is looked at.
\<close>

theorem validation_order_counterexample:
  "first_failing_check (products shop) \<lparr>product_id = 2, quantity = 1\<rparr> =
     Some (PRODUCT_INACTIVE ''Mocha'') \<and>
   length (replicate 250 CHR ''a'' @ ''@x.com'') = 256 \<and>
   process_sale shop 5 ''Ann'' ''Lee'' (replicate 250 CHR ''a'' @ ''@x.com'')
       [\<lparr>product_id = 1, quantity = 3\<rparr>, \<lparr>product_id = 2, quantity = 1\<rparr>] =
     (shop, Json_failure ''Transaction failed: value too long for type character varying(255)'')"
  by code_simp

subsection \<open>Customers\<close>


lemma find_None_filter:
  "find (\<lambda>c. c_email c = e) cs = None \<Longrightarrow> filter (\<lambda>c. c_email c = e) cs = []"
  by (simp add: find_None_iff filter_empty_conv)








subsection \<open>Requests that list a product more than once\<close>

lemma line_value_sold_row:
  "line_value (map (sold_row now pid qty) ps) it = line_value ps it"
  by (simp add: line_value_def find_map_id split: option.splits)

lemma order_value_sold_row:
  "order_value (map (sold_row now pid qty) ps) its = order_value ps its"
proof -
  have "line_value (map (sold_row now pid qty) ps) = line_value ps"
    by (rule ext) (rule line_value_sold_row)
  then show ?thesis by (simp add: order_value_def)
qed

lemma line_value_nonneg:
  "\<forall>p \<in> set ps. 0 \<le> p_price p \<Longrightarrow> 0 < quantity it \<Longrightarrow> 0 \<le> line_value ps it"
  by (auto simp: line_value_def find_Some_iff split: option.splits)

lemma order_value_nonneg:
  "\<forall>p \<in> set ps. 0 \<le> p_price p \<Longrightarrow> \<forall>i \<in> set its. 0 < quantity i \<Longrightarrow>
     0 \<le> order_value ps its"
  unfolding order_value_def by (intro sum_list_nonneg) (auto simp: line_value_nonneg)

lemma decrement_stock_Inl:
  "decrement_stock s now pid qty = Inl err \<Longrightarrow>
     err = check_violation ''products'' ''products_stock_check''"
  by (auto simp: decrement_stock_def Let_def split: if_splits)

lemma process_items_error:
  assumes "process_items s now sid tot its = Inl err"
    and "\<forall>i \<in> set its. 0 < quantity i \<and> find (\<lambda>p. p_id p = product_id i) (products s) \<noteq> None"
    and "\<forall>p \<in> set (products s). 0 \<le> p_price p"
    and "0 \<le> tot" and "tot + order_value (products s) its < 10000000000"
  shows "err = check_violation ''products'' ''products_stock_check''"
  using assms
proof (induction its arbitrary: s tot)
  case Nil
  then show ?case by simp
next
  case (Cons it rest)
  from Cons.prems(2) obtain p where f: "find (\<lambda>p. p_id p = product_id it) (products s) = Some p"
    and q: "0 < quantity it" by auto
  from f have "p \<in> set (products s)" by (auto simp: find_Some_iff)
  with Cons.prems(3) have pr: "0 \<le> p_price p" by blast
  let ?sub = "p_price p * quantity it"
  have sub0: "0 \<le> ?sub" using pr q by simp
  have lv: "line_value (products s) it = ?sub" by (simp add: line_value_def f)
  have rest0: "0 \<le> order_value (products s) rest"
    using Cons.prems(2,3) by (intro order_value_nonneg) auto
  have bound: "tot + ?sub + order_value (products s) rest < 10000000000"
    using Cons.prems(5) lv by (simp add: order_value_def)
  have fit1: "fits_decimal_10_2 ?sub" and fit2: "fits_decimal_10_2 (tot + ?sub)"
    using sub0 rest0 bound Cons.prems(4) by (simp_all add: fits_decimal_10_2_def)
  obtain s1 where i: "insert_sale_item s sid (product_id it) (quantity it) (p_price p) ?sub = Inr s1"
    using q sub0 pr by (simp add: insert_sale_item_def)
  from insert_sale_item_Inr [OF i] have p1: "products s1 = products s" by simp
  show ?case
  proof (cases "decrement_stock s1 now (product_id it) (quantity it)")
    case (Inl e)
    with Cons.prems(1) f fit1 fit2 i have "err = e" by (simp add: Let_def)
    with decrement_stock_Inl [OF Inl] show ?thesis by simp
  next
    case (Inr s2)
    from decrement_stock_Inr [OF Inr] p1
    have p2: "products s2 = map (sold_row now (product_id it) (quantity it)) (products s)" by simp
    from Cons.prems(1) f fit1 fit2 i Inr
    have r: "process_items s2 now sid (tot + ?sub) rest = Inl err" by (simp add: Let_def)
    show ?thesis
    proof (rule Cons.IH [OF r])
      show "\<forall>i \<in> set rest. 0 < quantity i \<and> find (\<lambda>p. p_id p = product_id i) (products s2) \<noteq> None"
        using Cons.prems(2) unfolding p2 by (simp add: find_map_id)
      show "\<forall>p \<in> set (products s2). 0 \<le> p_price p"
        using Cons.prems(3) unfolding p2 by auto
      show "0 \<le> tot + ?sub" using Cons.prems(4) sub0 by simp
      show "tot + ?sub + order_value (products s2) rest < 10000000000"
        unfolding p2 order_value_sold_row using bound .
    qed
  qed
qed

lemma process_sale_raised:
  assumes "resolve_customer s now f l e = Inr (s1, cid)"
    and "validate_items (products s) its = None"
    and "process_items (new_sale s1 (uuid_generate_v4 s1) cid) now (uuid_generate_v4 s1) 0 its
           = Inl err"
  shows "process_sale s now f l e its =
           (s, Json_failure (''Transaction failed: '' @ sqlerrm err))"
proof -
  from resolve_customer_frame [OF assms(1)] have "products s1 = products s" by simp
  with assms show ?thesis
    by (simp add: process_sale_def process_sale_block_def Let_def new_sale_def)
qed

lemma first_failing_check_found:
  "first_failing_check ps it = None \<Longrightarrow> find (\<lambda>p. p_id p = product_id it) ps \<noteq> None"
  by (auto simp: first_failing_check_def split: option.splits)

text \<open>
  Claim C10, as the code has it. Take a request whose customer step succeeds and in which
  every line item passes the three checks by itself, with positive quantities, prices
  that are not negative and an amount that fits \<open>DECIMAL(10, 2)\<close>, and in which the
  lines of some product together ask for more than its stock. The validation loop lets it
  through; the stock update of step 4 then breaks the stock check of the products table,
  the handler undoes the block, and the call returns the failure \<open>Transaction failed\<close>
  with the text of that error, not the insufficient-stock message.
\<close>

theorem duplicate_lines_oversell:
  assumes "resolve_customer s now f l e = Inr (s1, cid)"
    and "\<forall>i \<in> set its. first_failing_check (products s) i = None"
    and "\<forall>i \<in> set its. 0 < quantity i"
    and "\<forall>p \<in> set (products s). 0 \<le> p_price p"
    and "order_value (products s) its < 10000000000"
    and "p \<in> set (products s)" and "\<exists>i \<in> set its. product_id i = p_id p"
    and "p_stock p < requested (p_id p) its"
  shows "validate_items (products s) its = None \<and>
    process_sale s now f l e its =
      (s, Json_failure (''Transaction failed: '' @
            sqlerrm (check_violation ''products'' ''products_stock_check'')))"
proof -
  have v: "validate_items (products s) its = None"
    using assms(2) by (rule validate_items_pass)
  let ?s2 = "new_sale s1 (uuid_generate_v4 s1) cid"
  from resolve_customer_frame [OF assms(1)]
  have ps: "products ?s2 = products s" by (simp add: new_sale_def)
  have ne: "\<exists>err. process_items ?s2 now (uuid_generate_v4 s1) 0 its = Inl err"
  proof (cases "process_items ?s2 now (uuid_generate_v4 s1) 0 its")
    case (Inl a)
    then show ?thesis by simp
  next
    case (Inr b)
    obtain s3 tot where "b = (s3, tot)" by force
    with Inr process_items_within_stock [of ?s2 now "uuid_generate_v4 s1" 0 its s3 tot] assms(6,7)
    have "requested (p_id p) its \<le> p_stock p" unfolding ps by blast
    with assms(8) show ?thesis by simp
  qed
  then obtain e2 where pi: "process_items ?s2 now (uuid_generate_v4 s1) 0 its = Inl e2" by blast
  have "e2 = check_violation ''products'' ''products_stock_check''"
  proof (rule process_items_error [OF pi])
    show "\<forall>i \<in> set its. 0 < quantity i \<and> find (\<lambda>p. p_id p = product_id i) (products ?s2) \<noteq> None"
      unfolding ps using assms(2,3) by (simp add: first_failing_check_found)
    show "\<forall>p \<in> set (products ?s2). 0 \<le> p_price p" unfolding ps using assms(4) .
    show "(0::int) \<le> 0" by simp
    show "0 + order_value (products ?s2) its < 10000000000" unfolding ps using assms(5) by simp
  qed
  with process_sale_raised [OF assms(1) v pi] v show ?thesis by simp
qed

theorem duplicate_lines_oversell_witness:
  "list_all (\<lambda>i. first_failing_check (products shop) i = None \<and> 0 < quantity i) twice \<and>
   list_all (\<lambda>p. 0 \<le> p_price p) (products shop) \<and>
   order_value (products shop) twice = 6000 \<and>
   map p_stock (filter (\<lambda>p. p_id p = 1) (products shop)) = [10] \<and>
   requested 1 twice = 12 \<and>
   process_sale shop 5 ''Ann'' ''Lee'' ''a@x.com'' twice =
      (shop, Json_failure (''Transaction failed: new row for relation '' @ dquote ''products'' @
         '' violates check constraint '' @ dquote ''products_stock_check''))"
proof -
  let ?p = "\<lparr>p_id = 1, p_name = ''Latte'', p_price = 500, p_stock = 10,
                        p_is_active = True, p_updated_at = 0\<rparr>"
  have a: "\<forall>i \<in> set twice. first_failing_check (products shop) i = None"
    by (simp add: twice_def first_failing_check_def shop_def)
  have b: "\<forall>i \<in> set twice. 0 < quantity i" by (simp add: twice_def)
  have c: "\<forall>p \<in> set (products shop). 0 \<le> p_price p" by (simp add: shop_def)
  have d: "order_value (products shop) twice = 6000"
    by (simp add: order_value_def line_value_def twice_def shop_def)
  then have d': "order_value (products shop) twice < 10000000000" by simp
  have e: "?p \<in> set (products shop)" by (simp add: shop_def)
  have g: "\<exists>i \<in> set twice. product_id i = p_id ?p" by (simp add: twice_def)
  have h: "requested 1 twice = 12" by (simp add: twice_def)
  then have h': "p_stock ?p < requested (p_id ?p) twice" by simp
  have k: "map p_stock (filter (\<lambda>p. p_id p = 1) (products shop)) = [10]" by (simp add: shop_def)
  obtain s1 cid where rc: "resolve_customer shop 5 ''Ann'' ''Lee'' ''a@x.com'' = Inr (s1, cid)"
    using resolve_customer_fits [of "''Ann''" "''Lee''" "''a@x.com''" shop 5] by auto
  from duplicate_lines_oversell [OF rc a b c d' e g h']
  have "process_sale shop 5 ''Ann'' ''Lee'' ''a@x.com'' twice =
      (shop, Json_failure (''Transaction failed: new row for relation '' @ dquote ''products'' @
         '' violates check constraint '' @ dquote ''products_stock_check''))" by simp
  with a b c d h k show ?thesis by (simp add: list_all_iff)
qed


text \<open>
  The same request with an email of 256 characters: the call fails in the customer step
  and the stock check is never reached.
\<close>

theorem duplicate_lines_counterexample:
  "twice = [\<lparr>product_id = 1, quantity = 6\<rparr>, \<lparr>product_id = 1, quantity = 6\<rparr>] \<and>
   first_failing_check (products shop) \<lparr>product_id = 1, quantity = 6\<rparr> = None \<and>
   requested 1 twice = 12 \<and>
   map p_stock (products shop) = [10, 4] \<and>
   process_sale shop 5 ''Ann'' ''Lee'' (replicate 250 CHR ''a'' @ ''@x.com'') twice =
     (shop, Json_failure ''Transaction failed: value too long for type character varying(255)'')"
  by code_simp

subsection \<open>What a rejected request leaves behind\<close>

lemma rejected_sale_frame:
  assumes "resolve_customer s now f l e = Inr (s1, cid)"
    and "validate_items (products s) its = Some msg"
  shows "products (fst (process_sale s now f l e its)) = products s \<and>
         sales (fst (process_sale s now f l e its)) = sales s \<and>
         sale_items (fst (process_sale s now f l e its)) = sale_items s \<and>
         customers (fst (process_sale s now f l e its)) = customers s1"
  using resolve_customer_frame [OF assms(1)] process_sale_rejected [OF assms]
  by simp

text \<open>
  Claim C1. The claim asks that a request rejected by the validation of its items leaves
  no trace, the customer included. The function writes the customer in step 1, before
  the validation loop, and the loop leaves by \<open>RETURN\<close>, which raises nothing, so the
  handler that undoes the block does not run. In the store with no customer, the request
  of Ann Lee for a valid first item and an inactive second product is rejected, and the
  store afterwards holds her customer row; products, sales and sale items are as before.
\<close>

theorem rejected_sale_keeps_customer:
  "customers shop = [] \<and>
   process_sale shop 5 ''Ann'' ''Lee'' ''a@x.com''
       [\<lparr>product_id = 1, quantity = 3\<rparr>, \<lparr>product_id = 2, quantity = 1\<rparr>] =
     (shop\<lparr>customers := [\<lparr>c_id = 3, c_first_name = ''Ann'', c_last_name = ''Lee'',
                            c_email = ''a@x.com'', c_updated_at = 5\<rparr>]\<rparr>,
      Json_failure ''Product is not active: Mocha'')"
  by code_simp

section \<open>Properties of the service and the route\<close>

lemma bad_quantity_issues: "bad_quantity n \<Longrightarrow> quantity_issues path n \<noteq> []"
  by (cases n) auto

lemma bad_item_issues:
  "bad_quantity (raw_quantity item) \<Longrightarrow> issues_of (saleItemSchema parse_uuid path item) \<noteq> []"
  using bad_quantity_issues [of "raw_quantity item" "path @ ''.quantity''"]
  by (auto simp: saleItemSchema_def Let_def split: option.splits list.splits)

lemma bad_items_issues:
  "\<exists>item \<in> set xs. bad_quantity (raw_quantity item) \<Longrightarrow>
     concat (map issues_of (item_results parse_uuid k xs)) \<noteq> []"
proof (induction xs arbitrary: k)
  case Nil
  then show ?case by simp
next
  case (Cons x xs)
  then show ?case using bad_item_issues [of x parse_uuid "''items.'' @ nat_text k"] by auto
qed

text \<open>
  Claim C9. A request body whose item list is empty or longer than 50, or in which some
  quantity is not an integer, not positive or above 100, is refused by the middleware with
  the validation error and its issues. The answer is the same whatever the function behind
  \<open>supabase.rpc\<close> would do, so the sale processor is not called, and the store is the
  one before the request.
\<close>

theorem invalid_body_rejected:
  assumes "raw_items body = [] \<or> 50 < length (raw_items body) \<or>
           (\<exists>item \<in> set (raw_items body). bad_quantity (raw_quantity item))"
  shows "\<exists>found. found \<noteq> [] \<and>
           post_sales parse_uuid is_email supabase_rpc s body =
             (s, Inl (validation ''Validation failed for body'' found))"
proof -
  let ?found = "customer_issues is_email (raw_customer body) @
                items_issues parse_uuid (raw_items body)"
  have "items_issues parse_uuid (raw_items body) \<noteq> []"
    using assms bad_items_issues [of "raw_items body" parse_uuid 0]
    by (auto simp: items_issues_def)
  then have ne: "?found \<noteq> []" by simp
  then have "createSaleSchema parse_uuid is_email body = Inl ?found"
    by (simp add: createSaleSchema_def Let_def)
  then have "post_sales parse_uuid is_email supabase_rpc s body =
             (s, Inl (validation ''Validation failed for body'' ?found))"
    by (simp add: post_sales_def validate_def)
  with ne show ?thesis by blast
qed

lemma nat_text_small: "nat_text 0 = ''0''" "nat_text (Suc 0) = ''1''"
  by code_simp+

lemma floor_five_halves: "\<lfloor>5 / 2 :: rat\<rfloor> = 2"
  by (simp add: floor_eq_iff)

theorem invalid_body_rejected_witness:
  "bad_quantity (Num (5 / 2)) \<and>
   post_sales (\<lambda>t. Some 1) (\<lambda>t. True) (process_sale_rpc 5) shop
       (ann_posts [\<lparr>raw_productId = ''p1'', raw_quantity = Num 3\<rparr>,
                   \<lparr>raw_productId = ''p1'', raw_quantity = Num (5 / 2)\<rparr>]) =
     (shop, Inl (validation ''Validation failed for body''
        [\<lparr>field = ''items.1.quantity'', issue_message = ''Quantity must be an integer''\<rparr>]))"
proof -
  let ?body = "ann_posts [\<lparr>raw_productId = ''p1'', raw_quantity = Num 3\<rparr>,
                   \<lparr>raw_productId = ''p1'', raw_quantity = Num (5 / 2)\<rparr>]"
  have b: "bad_quantity (Num (5 / 2))" by (simp add: is_integer_def floor_five_halves)
  then have h: "raw_items ?body = [] \<or> 50 < length (raw_items ?body) \<or>
           (\<exists>item \<in> set (raw_items ?body). bad_quantity (raw_quantity item))"
    by (simp add: ann_posts_def)
  have e: "createSaleSchema (\<lambda>t. Some 1) (\<lambda>t. True) ?body =
      Inl [\<lparr>field = ''items.1.quantity'', issue_message = ''Quantity must be an integer''\<rparr>]"
    by (simp add: createSaleSchema_def customer_issues_def items_issues_def ann_posts_def
        saleItemSchema_def name_issues_def
        is_integer_def nat_text_small floor_five_halves)
  from invalid_body_rejected [OF h, of "\<lambda>t. Some 1" "\<lambda>t. True" "process_sale_rpc 5" shop]
  obtain found where "post_sales (\<lambda>t. Some 1) (\<lambda>t. True) (process_sale_rpc 5) shop ?body =
             (shop, Inl (validation ''Validation failed for body'' found))" by blast
  moreover from e have "post_sales (\<lambda>t. Some 1) (\<lambda>t. True) (process_sale_rpc 5) shop ?body =
     (shop, Inl (validation ''Validation failed for body''
        [\<lparr>field = ''items.1.quantity'', issue_message = ''Quantity must be an integer''\<rparr>]))"
    by (simp add: post_sales_def validate_def)
  ultimately show ?thesis using b by simp
qed

lemma validate_items_message:
  "validate_items ps xs = Some msg \<Longrightarrow> \<exists>r. msg = rejection_message r"
proof (induction xs)
  case Nil
  then show ?case by simp
next
  case (Cons x xs)
  show ?case
  proof (cases "first_failing_check ps x")
    case None
    with Cons show ?thesis
      by (auto simp: first_failing_check_def split: option.splits if_splits)
  next
    case (Some r)
    from validate_items_first_failure [of "[]" ps x r xs] Some Cons.prems
    show ?thesis by auto
  qed
qed

lemma rejection_message_not_empty: "rejection_message r \<noteq> []"
  by (cases r) simp_all

lemma process_sale_failure_message:
  assumes "process_sale s now f l e xs = (s', Json_failure msg)"
  shows "(\<exists>r. msg = rejection_message r) \<or> (\<exists>err. msg = ''Transaction failed: '' @ sqlerrm err)"
  using assms
proof (cases rule: process_sale_cases)
  case (rejected m s1 cid)
  with validate_items_message [OF rejected(1)] show ?thesis by auto
next
  case (failed err)
  then show ?thesis by auto
next
  case (committed s1 cid s3 tot)
  then show ?thesis by simp
qed

lemma createSale_process_sale:
  assumes "list_all (\<lambda>i. is_int32 (item_quantity i)) (items saleData)"
    and "process_sale s now (firstName (customer saleData)) (lastName (customer saleData))
           (email (customer saleData)) (rpc_items saleData) = (s', out)"
  shows "createSale (process_sale_rpc now) s saleData =
           (case out of
              Json_failure msg \<Rightarrow> (s', Inl (badRequest msg))
            | Json_success sid cid tot \<Rightarrow>
                (s', Inr \<lparr>saleId = sid, customerId = cid, total = parseFloat tot\<rparr>))"
proof -
  from assms(1) have r: "list_all (\<lambda>i. is_int32 (quantity i)) (rpc_items saleData)"
    by (simp add: rpc_items_def list_all_iff)
  show ?thesis
  proof (cases out)
    case (Json_failure msg)
    from process_sale_failure_message [OF assms(2) [unfolded Json_failure]]
    have "msg \<noteq> []" by (metis rejection_message_not_empty append_is_Nil_conv list.distinct(1))
    with Json_failure assms(2) r show ?thesis
      by (simp add: createSale_def process_sale_rpc_def)
  next
    case (Json_success sid cid tot)
    with assms(2) r show ?thesis by (simp add: createSale_def process_sale_rpc_def)
  qed
qed

lemma createSale_out_of_range:
  assumes "\<not> list_all (\<lambda>i. is_int32 (item_quantity i)) (items saleData)"
  shows "createSale (process_sale_rpc now) s saleData =
           (s, Inl (internal ''Failed to process sale''))"
proof -
  from assms have "\<not> list_all (\<lambda>i. is_int32 (quantity i)) (rpc_items saleData)"
    by (simp add: rpc_items_def list_all_iff)
  then show ?thesis by (simp add: createSale_def process_sale_rpc_def)
qed

text \<open>
  Claim C8, as the code has it. Every failure that \<open>process_sale\<close> reports reaches the
  caller of \<open>createSale\<close> as the \<open>AppError\<close> with status 400, code \<open>BAD_REQUEST\<close>, no
  details and the message of the function, whether a business rule rejected the request
  or the handler caught an error: the message is the rejection of a rule or starts with
  \<open>Transaction failed\<close>, and nothing else of the error tells the cases apart. When the
  call of \<open>supabase.rpc\<close> itself gives an error or no data, as it does for a quantity
  outside the 32-bit integers, the error has status 500 and code \<open>INTERNAL_ERROR\<close>.
\<close>

theorem sale_failure_signal:
  "(list_all (\<lambda>i. is_int32 (item_quantity i)) (items saleData) \<longrightarrow>
    process_sale s now (firstName (customer saleData)) (lastName (customer saleData))
        (email (customer saleData)) (rpc_items saleData) = (s', Json_failure msg) \<longrightarrow>
      createSale (process_sale_rpc now) s saleData =
        (s', Inl \<lparr>message = msg, statusCode = 400, code = ''BAD_REQUEST'',
                  isOperational = True, details = []\<rparr>) \<and>
      ((\<exists>r. msg = rejection_message r) \<or>
       (\<exists>e. msg = ''Transaction failed: '' @ sqlerrm e))) \<and>
   (\<not> list_all (\<lambda>i. is_int32 (item_quantity i)) (items saleData) \<longrightarrow>
      createSale (process_sale_rpc now) s saleData =
        (s, Inl \<lparr>message = ''Failed to process sale'', statusCode = 500,
                 code = ''INTERNAL_ERROR'', isOperational = False, details = []\<rparr>)) \<and>
   (snd (supabase_rpc s (firstName (customer saleData)) (lastName (customer saleData))
           (email (customer saleData)) (rpc_items saleData)) \<in> {Rpc_error, Rpc_null} \<longrightarrow>
      (\<exists>m. snd (createSale supabase_rpc s saleData) =
             Inl \<lparr>message = m, statusCode = 500, code = ''INTERNAL_ERROR'',
                  isOperational = False, details = []\<rparr>))"
proof (intro conjI)
  show "list_all (\<lambda>i. is_int32 (item_quantity i)) (items saleData) \<longrightarrow>
    process_sale s now (firstName (customer saleData)) (lastName (customer saleData))
        (email (customer saleData)) (rpc_items saleData) = (s', Json_failure msg) \<longrightarrow>
      createSale (process_sale_rpc now) s saleData =
        (s', Inl \<lparr>message = msg, statusCode = 400, code = ''BAD_REQUEST'',
                  isOperational = True, details = []\<rparr>) \<and>
      ((\<exists>r. msg = rejection_message r) \<or>
       (\<exists>e. msg = ''Transaction failed: '' @ sqlerrm e))"
  proof (intro impI)
    assume a: "list_all (\<lambda>i. is_int32 (item_quantity i)) (items saleData)"
      and p: "process_sale s now (firstName (customer saleData)) (lastName (customer saleData))
        (email (customer saleData)) (rpc_items saleData) = (s', Json_failure msg)"
    from createSale_process_sale [OF a p] process_sale_failure_message [OF p]
    show "createSale (process_sale_rpc now) s saleData =
        (s', Inl \<lparr>message = msg, statusCode = 400, code = ''BAD_REQUEST'',
                  isOperational = True, details = []\<rparr>) \<and>
      ((\<exists>r. msg = rejection_message r) \<or>
       (\<exists>e. msg = ''Transaction failed: '' @ sqlerrm e))"
      by (simp add: badRequest_def)
  qed
next
  show "\<not> list_all (\<lambda>i. is_int32 (item_quantity i)) (items saleData) \<longrightarrow>
      createSale (process_sale_rpc now) s saleData =
        (s, Inl \<lparr>message = ''Failed to process sale'', statusCode = 500,
                 code = ''INTERNAL_ERROR'', isOperational = False, details = []\<rparr>)"
    using createSale_out_of_range [of saleData now s] by (simp add: internal_def)
next
  show "snd (supabase_rpc s (firstName (customer saleData)) (lastName (customer saleData))
           (email (customer saleData)) (rpc_items saleData)) \<in> {Rpc_error, Rpc_null} \<longrightarrow>
      (\<exists>m. snd (createSale supabase_rpc s saleData) =
             Inl \<lparr>message = m, statusCode = 500, code = ''INTERNAL_ERROR'',
                  isOperational = False, details = []\<rparr>)"
    by (auto simp: createSale_def Let_def split_beta internal_def)
qed

theorem sale_failure_signal_witness:
  "list_all (\<lambda>i. is_int32 (item_quantity i)) (items (ann_buys [\<lparr>productId = 1, item_quantity = 30\<rparr>])) \<and>
   createSale (process_sale_rpc 5) shop (ann_buys [\<lparr>productId = 1, item_quantity = 30\<rparr>]) =
     (fst (process_sale shop 5 ''Ann'' ''Lee'' ''a@x.com'' [\<lparr>product_id = 1, quantity = 30\<rparr>]),
      Inl \<lparr>message = ''Insufficient stock for product: Latte (available: 10, requested: 30)'',
           statusCode = 400, code = ''BAD_REQUEST'', isOperational = True, details = []\<rparr>) \<and>
   createSale (process_sale_rpc 5) shop
       (ann_buys [\<lparr>productId = 1, item_quantity = 2147483648\<rparr>]) =
     (shop, Inl \<lparr>message = ''Failed to process sale'', statusCode = 500,
                 code = ''INTERNAL_ERROR'', isOperational = False, details = []\<rparr>)"
proof -
  let ?in = "ann_buys [\<lparr>productId = 1, item_quantity = 30\<rparr>]"
  let ?big = "ann_buys [\<lparr>productId = 1, item_quantity = 2147483648\<rparr>]"
  let ?m = "''Insufficient stock for product: Latte (available: 10, requested: 30)''"
  let ?p = "process_sale shop 5 ''Ann'' ''Lee'' ''a@x.com'' [\<lparr>product_id = 1, quantity = 30\<rparr>]"
  have a: "list_all (\<lambda>i. is_int32 (item_quantity i)) (items ?in)"
    by (simp add: ann_buys_def is_int32_def)
  have b: "\<not> list_all (\<lambda>i. is_int32 (item_quantity i)) (items ?big)"
    by (simp add: ann_buys_def is_int32_def)
  have "snd ?p = Json_failure ?m" by code_simp
  then have "?p = (fst ?p, Json_failure ?m)" by (metis prod.collapse)
  then have p: "process_sale shop 5 (firstName (customer ?in)) (lastName (customer ?in))
        (email (customer ?in)) (rpc_items ?in) = (fst ?p, Json_failure ?m)"
    by (simp add: ann_buys_def rpc_items_def)
  from sale_failure_signal [of ?in shop 5 "fst ?p" ?m] a p
  have 1: "createSale (process_sale_rpc 5) shop ?in =
     (fst ?p, Inl \<lparr>message = ?m, statusCode = 400, code = ''BAD_REQUEST'',
                   isOperational = True, details = []\<rparr>)" by blast
  from sale_failure_signal [of ?big shop 5] b
  have 2: "createSale (process_sale_rpc 5) shop ?big =
     (shop, Inl \<lparr>message = ''Failed to process sale'', statusCode = 500,
                 code = ''INTERNAL_ERROR'', isOperational = False, details = []\<rparr>)" by blast
  from a 1 2 show ?thesis by (intro conjI)
qed

text \<open>
  The three business rejections and a transaction failure, at the small store: the four
  errors differ in the message only.
\<close>

theorem reason_code_counterexample:
  "snd (createSale (process_sale_rpc 5) shop (ann_buys [\<lparr>productId = 9, item_quantity = 1\<rparr>])) =
     Inl \<lparr>message = ''Product not found: 9'', statusCode = 400, code = ''BAD_REQUEST'',
          isOperational = True, details = []\<rparr> \<and>
   snd (createSale (process_sale_rpc 5) shop (ann_buys [\<lparr>productId = 2, item_quantity = 1\<rparr>])) =
     Inl \<lparr>message = ''Product is not active: Mocha'', statusCode = 400, code = ''BAD_REQUEST'',
          isOperational = True, details = []\<rparr> \<and>
   snd (createSale (process_sale_rpc 5) shop (ann_buys [\<lparr>productId = 1, item_quantity = 30\<rparr>])) =
     Inl \<lparr>message = ''Insufficient stock for product: Latte (available: 10, requested: 30)'',
          statusCode = 400, code = ''BAD_REQUEST'', isOperational = True, details = []\<rparr> \<and>
   snd (createSale (process_sale_rpc 5) shop
          (ann_buys [\<lparr>productId = 1, item_quantity = 6\<rparr>, \<lparr>productId = 1, item_quantity = 6\<rparr>])) =
     Inl \<lparr>message = ''Transaction failed: new row for relation '' @ dquote ''products'' @
                     '' violates check constraint '' @ dquote ''products_stock_check'',
          statusCode = 400, code = ''BAD_REQUEST'', isOperational = True, details = []\<rparr>"
  by code_simp

subsection \<open>The returned total\<close>

text \<open>
  Claim C3, as the code has it. A store in which every sale total is the sum of the
  subtotals of its items, and every subtotal is quantity times unit price, stays so after
  a call of \<open>createSale\<close>, whatever its outcome. When the call succeeds, the reply of
  \<open>process_sale\<close> carries the identifiers that \<open>createSale\<close> returns and a total; the
  store has exactly one sale row with that identifier and that total; the total is the
  sum of the subtotals of the sale's items, which are the requested products and
  quantities in input order. Amounts are integers of hundredths, so this arithmetic is
  exact. The total that \<open>createSale\<close> returns is the JavaScript number nearest to the
  persisted total: it need not be equal to it, differs from it by at most the total
  times \<open>2^-53\<close>, and gives the persisted total back when rounded to two fractional
  digits.
\<close>

theorem sale_total_exact:
  assumes "sale_consistent s"
    and "createSale (process_sale_rpc now) s saleData = (s', res)"
  shows "sale_consistent s' \<and>
    (\<forall>created. res = Inr created \<longrightarrow>
       (\<exists>tot.
          process_sale s now (firstName (customer saleData)) (lastName (customer saleData))
            (email (customer saleData)) (rpc_items saleData) =
            (s', Json_success (saleId created) (customerId created) tot) \<and>
          filter (\<lambda>r. s_id r = saleId created) (sales s') =
            [\<lparr>s_id = saleId created, s_customer_id = customerId created, s_total = tot\<rparr>] \<and>
          tot = sum_list (map si_subtotal (items_of_sale s' (saleId created))) \<and>
          map (\<lambda>i. (si_product_id i, si_quantity i)) (items_of_sale s' (saleId created)) =
            map (\<lambda>i. (productId i, item_quantity i)) (items saleData) \<and>
          total created = parseFloat tot \<and>
          \<lfloor>100 * total created + 1 / 2\<rfloor> = tot \<and>
          \<bar>total created - of_int tot / 100\<bar> \<le> of_int tot / 100 / 2 ^ 53))"
proof (cases "list_all (\<lambda>i. is_int32 (item_quantity i)) (items saleData)")
  case False
  from createSale_out_of_range [OF False, of now s] assms show ?thesis by simp
next
  case True
  obtain s1 out where p: "process_sale s now (firstName (customer saleData))
      (lastName (customer saleData)) (email (customer saleData)) (rpc_items saleData) = (s1, out)"
    by force
  note c = createSale_process_sale [OF True p]
  note t = process_sale_totals [OF assms(1) p]
  show ?thesis
  proof (cases out)
    case (Json_failure msg)
    with c assms(2) t show ?thesis by simp
  next
    case (Json_success sid cid tot)
    with c assms(2) have s': "s' = s1"
      and res: "res = Inr \<lparr>saleId = sid, customerId = cid, total = parseFloat tot\<rparr>" by simp_all
    from committed_total_range [OF p [unfolded Json_success]]
    have rg: "0 \<le> tot" "tot < 10000000000" by simp_all
    have m: "map (\<lambda>i. (product_id i, quantity i)) (rpc_items saleData) =
             map (\<lambda>i. (productId i, item_quantity i)) (items saleData)"
      by (simp add: rpc_items_def o_def)
    from t Json_success have
      "sale_consistent s1"
      "filter (\<lambda>r. s_id r = sid) (sales s1) = [\<lparr>s_id = sid, s_customer_id = cid, s_total = tot\<rparr>]"
      "tot = sum_list (map si_subtotal (items_of_sale s1 sid))"
      "map (\<lambda>i. (si_product_id i, si_quantity i)) (items_of_sale s1 sid) =
         map (\<lambda>i. (product_id i, quantity i)) (rpc_items saleData)"
      by simp_all
    with p Json_success s' res m parseFloat_round_trip [OF rg] parseFloat_error [OF rg(1)]
    show ?thesis by simp
  qed
qed

theorem sale_total_exact_witness:
  "sale_consistent shop \<and>
   createSale (process_sale_rpc 5) shop
       (ann_buys [\<lparr>productId = 1, item_quantity = 3\<rparr>, \<lparr>productId = 1, item_quantity = 2\<rparr>]) =
     (fst (process_sale shop 5 ''Ann'' ''Lee'' ''a@x.com'' order),
      Inr \<lparr>saleId = 4, customerId = 3, total = 25\<rparr>) \<and>
   sale_consistent (fst (process_sale shop 5 ''Ann'' ''Lee'' ''a@x.com'' order)) \<and>
   map s_total (sales (fst (process_sale shop 5 ''Ann'' ''Lee'' ''a@x.com'' order))) = [2500] \<and>
   parseFloat 2500 = 25"
proof -
  let ?in = "ann_buys [\<lparr>productId = 1, item_quantity = 3\<rparr>, \<lparr>productId = 1, item_quantity = 2\<rparr>]"
  let ?s' = "fst (process_sale shop 5 ''Ann'' ''Lee'' ''a@x.com'' order)"
  have h: "sale_consistent shop" by (simp add: sale_consistent_def shop_def)
  have pf: "parseFloat 2500 = 25" by code_simp
  have "snd (createSale (process_sale_rpc 5) shop ?in) =
          Inr \<lparr>saleId = 4, customerId = 3, total = 25\<rparr>" by code_simp
  moreover have "fst (createSale (process_sale_rpc 5) shop ?in) = ?s'" by code_simp
  ultimately have e: "createSale (process_sale_rpc 5) shop ?in =
      (?s', Inr \<lparr>saleId = 4, customerId = 3, total = 25\<rparr>)" by (metis prod.collapse)
  have st: "map s_total (sales ?s') = [2500]" by code_simp
  from sale_total_exact [OF h e] have "sale_consistent ?s'" by blast
  with h e st pf show ?thesis by (intro conjI)
qed

text \<open>
  A sale of one product at \<open>0.10\<close>: the store holds the total \<open>0.10\<close>, and the total
  returned is the binary64 number nearest to it, which is another number.
\<close>

theorem returned_total_counterexample:
  "map s_total (sales (fst (createSale (process_sale_rpc 5) kiosk
                              (ann_buys [\<lparr>productId = 1, item_quantity = 1\<rparr>])))) = [10] \<and>
   snd (createSale (process_sale_rpc 5) kiosk (ann_buys [\<lparr>productId = 1, item_quantity = 1\<rparr>])) =
     Inr \<lparr>saleId = 3, customerId = 2, total = 3602879701896397 / 36028797018963968\<rparr> \<and>
   (3602879701896397 / 36028797018963968 :: rat) \<noteq> 10 / 100"
  by code_simp

section \<open>Properties of the catalog mutations\<close>

lemma updateProduct_frame:
  "sales (fst (updateProduct s now pid d)) = sales s \<and>
   sale_items (fst (updateProduct s now pid d)) = sale_items s \<and>
   customers (fst (updateProduct s now pid d)) = customers s"
  by (simp add: updateProduct_def Let_def split: sum.splits list.splits)

lemma deleteProduct_frame:
  "sales (fst (deleteProduct s now pid)) = sales s \<and>
   sale_items (fst (deleteProduct s now pid)) = sale_items s \<and>
   customers (fst (deleteProduct s now pid)) = customers s"
  by (simp add: deleteProduct_def split: sum.splits)

lemma createProduct_frame:
  "sales (fst (createProduct s now n pr st)) = sales s \<and>
   sale_items (fst (createProduct s now n pr st)) = sale_items s \<and>
   customers (fst (createProduct s now n pr st)) = customers s"
  by (simp add: createProduct_def Let_def)

lemma catalog_step_frame:
  "sales (catalog_step s op) = sales s \<and> sale_items (catalog_step s op) = sale_items s \<and>
   customers (catalog_step s op) = customers s"
proof (cases op)
  case (Pair now c)
  then show ?thesis
    by (cases c) (simp_all add: updateProduct_frame deleteProduct_frame createProduct_frame)
qed

lemma catalog_run_frame:
  "sales (catalog_run s ops) = sales s \<and> sale_items (catalog_run s ops) = sale_items s \<and>
   customers (catalog_run s ops) = customers s"
  unfolding catalog_run_def
  by (induction ops arbitrary: s) (simp_all add: catalog_step_frame)

lemma committed_sale_rows:
  assumes "process_sale s now f l e its = (s', Json_success sid cid tot)"
  shows "filter (\<lambda>r. s_id r = sid) (sales s') =
           [\<lparr>s_id = sid, s_customer_id = cid, s_total = tot\<rparr>] \<and>
         list_all2 (\<lambda>row it. \<exists>p. find (\<lambda>p. p_id p = product_id it) (products s) = Some p \<and>
                       si_product_id row = product_id it \<and> si_quantity row = quantity it \<and>
                       si_unit_price row = p_price p \<and>
                       si_subtotal row = p_price p * quantity it)
           (items_of_sale s' sid) its"
  using assms
proof (cases rule: process_sale_cases)
  case (rejected msg s1 c)
  then show ?thesis by simp
next
  case (failed err)
  then show ?thesis by simp
next
  case (committed s1 c s3 t)
  let ?sid = "uuid_generate_v4 s1"
  from committed(6) have eq: "sid = ?sid" "cid = c" "tot = t" by simp_all
  from committed_tables [OF committed(2,3,5)] obtain new where
    t1: "sales s' = sales s @ [\<lparr>s_id = ?sid, s_customer_id = c, s_total = t\<rparr>]"
    and t2: "sale_items s' = sale_items s @ new"
    and t3: "\<forall>i \<in> set new. si_sale_id i = ?sid \<and> si_subtotal i = si_quantity i * si_unit_price i"
    and t4: "map (\<lambda>i. (si_product_id i, si_quantity i)) new = map (\<lambda>i. (product_id i, quantity i)) its"
    and t5: "list_all2 (\<lambda>row it. \<exists>p. find (\<lambda>p. p_id p = product_id it) (products s) = Some p \<and>
                     si_unit_price row = p_price p) new its"
    by blast
  note fr = fresh_sale_id [OF committed(2)]
  have new_items: "items_of_sale s' ?sid = new"
    unfolding items_of_sale_def t2 using fr(2) t3 by (simp add: filter_id_conv filter_empty_conv)
  have one: "filter (\<lambda>r. s_id r = ?sid) (sales s') = [\<lparr>s_id = ?sid, s_customer_id = c, s_total = t\<rparr>]"
    unfolding t1 using fr(1) by (simp add: filter_empty_conv)
  have len: "length new = length its" using t5 by (rule list_all2_lengthD)
  have "list_all2 (\<lambda>row it. \<exists>p. find (\<lambda>p. p_id p = product_id it) (products s) = Some p \<and>
                       si_product_id row = product_id it \<and> si_quantity row = quantity it \<and>
                       si_unit_price row = p_price p \<and>
                       si_subtotal row = p_price p * quantity it) new its"
  proof (rule list_all2_all_nthI [OF len])
    fix n assume n: "n < length new"
    then have n': "n < length its" using len by simp
    from t5 n obtain p where p: "find (\<lambda>p. p_id p = product_id (its ! n)) (products s) = Some p"
      "si_unit_price (new ! n) = p_price p" by (auto dest: list_all2_nthD)
    from t4 n n' have "(si_product_id (new ! n), si_quantity (new ! n)) =
        (product_id (its ! n), quantity (its ! n))"
      by (metis (mono_tags, lifting) nth_map)
    then have a: "si_product_id (new ! n) = product_id (its ! n)"
      "si_quantity (new ! n) = quantity (its ! n)" by simp_all
    from t3 n have "si_subtotal (new ! n) = si_quantity (new ! n) * si_unit_price (new ! n)"
      by simp
    with p a show "\<exists>p. find (\<lambda>p. p_id p = product_id (its ! n)) (products s) = Some p \<and>
                       si_product_id (new ! n) = product_id (its ! n) \<and>
                       si_quantity (new ! n) = quantity (its ! n) \<and>
                       si_unit_price (new ! n) = p_price p \<and>
                       si_subtotal (new ! n) = p_price p * quantity (its ! n)"
      by (simp add: mult.commute)
  qed
  with one new_items eq show ?thesis by simp
qed

text \<open>
  Claim C7. After a call of \<open>process_sale\<close> that commits, take any run of catalog
  mutations (creating, updating and soft-deleting products, a change of price included).
  The sales and sale items tables are the ones the sale left; the sale row still carries
  the returned total; and each line item of the sale still carries the unit price that the
  product had in the store the sale started from, with the subtotal at that price.
\<close>

theorem price_snapshot:
  assumes "process_sale s now f l e its = (s1, Json_success sid cid tot)"
  shows "sales (catalog_run s1 ops) = sales s1 \<and>
         sale_items (catalog_run s1 ops) = sale_items s1 \<and>
         filter (\<lambda>r. s_id r = sid) (sales (catalog_run s1 ops)) =
           [\<lparr>s_id = sid, s_customer_id = cid, s_total = tot\<rparr>] \<and>
         list_all2 (\<lambda>row it. \<exists>p. find (\<lambda>p. p_id p = product_id it) (products s) = Some p \<and>
                       si_product_id row = product_id it \<and> si_quantity row = quantity it \<and>
                       si_unit_price row = p_price p \<and>
                       si_subtotal row = p_price p * quantity it)
           (items_of_sale (catalog_run s1 ops) sid) its"
  using committed_sale_rows [OF assms] catalog_run_frame [of s1 ops]
  by (simp add: items_of_sale_def)

theorem price_snapshot_witness:
  "snd (process_sale shop 5 ''Ann'' ''Lee'' ''a@x.com'' order) = Json_success 4 3 2500 \<and>
   map p_price (products (catalog_run (fst (process_sale shop 5 ''Ann'' ''Lee'' ''a@x.com'' order))
                            reprice)) = [900, 650] \<and>
   map si_unit_price (items_of_sale
       (catalog_run (fst (process_sale shop 5 ''Ann'' ''Lee'' ''a@x.com'' order)) reprice) 4) =
     [500, 500] \<and>
   filter (\<lambda>r. s_id r = 4)
     (sales (catalog_run (fst (process_sale shop 5 ''Ann'' ''Lee'' ''a@x.com'' order)) reprice)) =
     [\<lparr>s_id = 4, s_customer_id = 3, s_total = 2500\<rparr>]"
proof -
  let ?r = "process_sale shop 5 ''Ann'' ''Lee'' ''a@x.com'' order"
  have o: "snd ?r = Json_success 4 3 2500" by code_simp
  then have e: "?r = (fst ?r, Json_success 4 3 2500)" by (metis prod.collapse)
  have pr: "map p_price (products (catalog_run (fst ?r) reprice)) = [900, 650]" by code_simp
  have it: "map si_unit_price (items_of_sale (fst ?r) 4) = [500, 500]" by code_simp
  from price_snapshot [OF e, of reprice]
  have "sale_items (catalog_run (fst ?r) reprice) = sale_items (fst ?r)"
    and "filter (\<lambda>r. s_id r = 4) (sales (catalog_run (fst ?r) reprice)) =
     [\<lparr>s_id = 4, s_customer_id = 3, s_total = 2500\<rparr>]" by blast+
  with o pr it show ?thesis by (simp add: items_of_sale_def)
qed

end
